theory Spec2Isabelle
  imports Main "HOL-Library.Sublist"
begin

section \<open>PendingCounter (src/refiller/shared/pending_counter.py)\<close>

text \<open>
  The counter is one Python int behind an asyncio lock. No method awaits while it holds
  the lock, so each method is one atomic step on the field \<open>_count\<close> (here \<open>count\<close>).
\<close>

record PendingCounter =
  count :: int

definition PendingCounter_init :: PendingCounter where
  "PendingCounter_init = \<lparr>count = 0\<rparr>"

definition inc :: "PendingCounter \<Rightarrow> PendingCounter" where
  "inc c = c\<lparr>count := count c + 1\<rparr>"

definition dec :: "PendingCounter \<Rightarrow> PendingCounter" where
  "dec c = c\<lparr>count := max 0 (count c - 1)\<rparr>"

text \<open>\<open>value\<close> returns the count and leaves the counter as it is.\<close>

definition value_of :: "PendingCounter \<Rightarrow> int \<times> PendingCounter" where
  "value_of c = (count c, c)"

definition reset_to :: "int \<Rightarrow> PendingCounter \<Rightarrow> PendingCounter" where
  "reset_to v c = c\<lparr>count := max 0 v\<rparr>"

datatype counter_op = Op_inc | Op_dec | Op_value | Op_reset_to int

fun apply_counter_op :: "counter_op \<Rightarrow> PendingCounter \<Rightarrow> PendingCounter" where
  "apply_counter_op Op_inc c = inc c"
| "apply_counter_op Op_dec c = dec c"
| "apply_counter_op Op_value c = snd (value_of c)"
| "apply_counter_op (Op_reset_to v) c = reset_to v c"

fun run_counter_ops :: "counter_op list \<Rightarrow> PendingCounter \<Rightarrow> PendingCounter" where
  "run_counter_ops [] c = c"
| "run_counter_ops (x # xs) c = run_counter_ops xs (apply_counter_op x c)"

section \<open>Tasks and the reconciler tick (src/refiller/services/tasks.py, app/replenisher.py)\<close>

text \<open>
  A UUID is its 128-bit integer value. \<open>uuid.uuid4()\<close> is random: the tick takes the
  generator as a function of the number of ids drawn so far.
\<close>

type_synonym uuid = nat

record CloneTask =
  job_id :: uuid

record Config =
  min_ready_vm :: int
  max_ready_vm :: int
  batch_size :: int

datatype event = EvPut CloneTask | EvInc

text \<open>
  The control-plane state the tick touches: the unbounded FIFO \<open>CLONE_QUEUE\<close>, the
  global \<open>pending\<close> counter, and the sequence of queue and counter calls made so far.
\<close>

record control_state =
  clone_queue :: "CloneTask list"
  pending :: PendingCounter
  events :: "event list"

definition queue_put :: "CloneTask \<Rightarrow> control_state \<Rightarrow> control_state" where
  "queue_put t s = s\<lparr>clone_queue := clone_queue s @ [t], events := events s @ [EvPut t]\<rparr>"

definition pending_inc :: "control_state \<Rightarrow> control_state" where
  "pending_inc s = s\<lparr>pending := inc (pending s), events := events s @ [EvInc]\<rparr>"

text \<open>
  The body of \<open>for _ in range(need)\<close>: put a fresh task, then increment. The loop runs
  \<open>nat need\<close> times: \<open>range\<close> of a negative number is empty.
\<close>

fun enqueue_loop :: "(nat \<Rightarrow> uuid) \<Rightarrow> nat \<Rightarrow> control_state \<Rightarrow> control_state" where
  "enqueue_loop uuid4 0 s = s"
| "enqueue_loop uuid4 (Suc n) s =
     enqueue_loop uuid4 n
       (pending_inc (queue_put \<lparr>job_id = uuid4 (length (clone_queue s))\<rparr> s))"

text \<open>
  One pass of the \<open>while\<close> loop of \<open>Replenisher.run\<close> after the janitor, given the
  value \<open>ready\<close> that \<open>count_ready\<close> returned.
\<close>

definition tick :: "Config \<Rightarrow> (nat \<Rightarrow> uuid) \<Rightarrow> int \<Rightarrow> control_state \<Rightarrow> control_state" where
  "tick cfg uuid4 ready s =
     (let pending_count = fst (value_of (pending s));
          total = ready + pending_count
      in if total < min_ready_vm cfg
         then let need = min (batch_size cfg) (max_ready_vm cfg - total)
              in enqueue_loop uuid4 (nat need) s
         else s)"

text \<open>The tasks a tick added to the queue, and the calls it made.\<close>

definition enqueued :: "control_state \<Rightarrow> control_state \<Rightarrow> CloneTask list" where
  "enqueued s s' = drop (length (clone_queue s)) (clone_queue s')"

definition new_events :: "control_state \<Rightarrow> control_state \<Rightarrow> event list" where
  "new_events s s' = drop (length (events s)) (events s')"

fun count_puts :: "event list \<Rightarrow> nat" where
  "count_puts [] = 0"
| "count_puts (EvPut t # es) = Suc (count_puts es)"
| "count_puts (EvInc # es) = count_puts es"

fun count_incs :: "event list \<Rightarrow> nat" where
  "count_incs [] = 0"
| "count_incs (EvPut t # es) = count_incs es"
| "count_incs (EvInc # es) = Suc (count_incs es)"

text \<open>
  The ordering the specification asks for: at every point of the tick, every put that
  has completed has its increment behind it.
\<close>

definition inc_before_put :: "event list \<Rightarrow> bool" where
  "inc_before_put es = list_all (\<lambda>p. count_puts p \<le> count_incs p) (prefixes es)"

text \<open>
  The ordering of the code: at every point of the tick the increments are the completed
  puts, or one behind them.
\<close>

definition put_before_inc :: "event list \<Rightarrow> bool" where
  "put_before_inc es =
     list_all (\<lambda>p. count_incs p \<le> count_puts p \<and> count_puts p \<le> Suc (count_incs p)) (prefixes es)"

definition control_init :: control_state where
  "control_init = \<lparr>clone_queue = [], pending = PendingCounter_init, events = []\<rparr>"

section \<open>CloneWorker (src/refiller/domain/builder.py)\<close>

text \<open>
  The worker is sequential code around calls that leave the process: the vSphere pool
  manager, the guest bootstrap and the tutorial. Each such call either returns a value or
  raises. The exceptions the worker tells apart are \<open>TimeoutError\<close> and everything
  else caught by \<open>except Exception\<close>. What the k-th call of a run does is given by an
  environment \<open>nat \<Rightarrow> outcome\<close>; the world records how many calls were made, which
  ones, the result queue and the field \<open>self.vm\<close>. Logging and \<open>time.sleep\<close> are
  left out: they return.
\<close>

datatype exn = TimeoutError | OtherError

datatype val = NoneV | StrV string | VmV string

datatype outcome = Returns val | Raises exn

datatype call =
    Pool_connect
  | Pool_disconnect
  | Clone_vm string string string
  | Power_on_vm val
  | Wait_for_vm_ready val int
  | Power_off_vm val
  | Mark_ready val
  | Mark_fault val
  | Restart_vm val
  | Ensure_nsx_alive
  | BlisInitSetup_run val
  | GameTutorial_run val val

record WorkerResult =
  status :: string
  vm_name :: string
  message :: "string option"

record world =
  pos :: nat
  calls :: "call list"
  result_q :: "WorkerResult list"
  self_vm :: val

type_synonym 'a action = "world \<Rightarrow> (exn + 'a) \<times> world"

definition ext_call :: "(nat \<Rightarrow> outcome) \<Rightarrow> call \<Rightarrow> val action" where
  "ext_call env c w =
     (let w' = w\<lparr>pos := Suc (pos w), calls := calls w @ [c]\<rparr>
      in case env (pos w) of Returns v \<Rightarrow> (Inr v, w') | Raises e \<Rightarrow> (Inl e, w'))"

text \<open>Sequencing: an exception of the first action skips the rest.\<close>

definition then_do :: "'a action \<Rightarrow> ('a \<Rightarrow> 'b action) \<Rightarrow> 'b action" where
  "then_do m f w = (case m w of (Inl e, w') \<Rightarrow> (Inl e, w') | (Inr v, w') \<Rightarrow> f v w')"

definition result_q_put :: "WorkerResult \<Rightarrow> val action" where
  "result_q_put r w = (Inr NoneV, w\<lparr>result_q := result_q w @ [r]\<rparr>)"

definition set_self_vm :: "val \<Rightarrow> val action" where
  "set_self_vm v w = (Inr NoneV, w\<lparr>self_vm := v\<rparr>)"

text \<open>\<open>try: ... except Exception: pass\<close>\<close>

definition try_pass :: "'a action \<Rightarrow> val action" where
  "try_pass m w = (case m w of (r, w') \<Rightarrow> (Inr NoneV, w'))"

text \<open>
  \<open>with VSpherePoolManager(...) as pool: body\<close>. The constructor connects and may
  raise; \<open>__exit__\<close> disconnects, may raise itself, and returns False, so an exception
  of the body goes on once the disconnect has returned.
\<close>

definition with_pool :: "(nat \<Rightarrow> outcome) \<Rightarrow> 'a action \<Rightarrow> 'a action" where
  "with_pool env body w =
     (case ext_call env Pool_connect w of
        (Inl e, w1) \<Rightarrow> (Inl e, w1)
      | (Inr p, w1) \<Rightarrow>
          (case body w1 of
             (r, w2) \<Rightarrow>
               (case ext_call env Pool_disconnect w2 of
                  (Inl e2, w3) \<Rightarrow> (Inl e2, w3)
                | (Inr d, w3) \<Rightarrow> (r, w3))))"

text \<open>
  \<open>retry_sync(fn, retries, backoff, label)\<close>: \<open>for attempt in range(1, retries + 1)\<close>
  runs \<open>nat retries\<close> times; the last attempt re-raises; a loop that never runs falls
  off the end and returns None.
\<close>

fun retry_from :: "val action \<Rightarrow> int \<Rightarrow> nat \<Rightarrow> int \<Rightarrow> val action" where
  "retry_from fn retries 0 attempt w = (Inr NoneV, w)"
| "retry_from fn retries (Suc k) attempt w =
     (case fn w of
        (Inr v, w') \<Rightarrow> (Inr v, w')
      | (Inl e, w') \<Rightarrow>
          if attempt = retries then (Inl e, w')
          else retry_from fn retries k (attempt + 1) w')"

definition retry_sync :: "val action \<Rightarrow> int \<Rightarrow> val action" where
  "retry_sync fn retries = retry_from fn retries (nat retries) 1"

text \<open>The settings the worker reads (src/refiller/shared/settings.py).\<close>

record Settings =
  vm_prefix :: string
  golden_name :: string
  pool_op_retries :: int
  cfg_ip_timeout :: int

text \<open>
  Strings are sequences of code points below 256. \<open>str.isspace\<close> holds there for
  9 to 13, 28 to 32, 133 and 160; \<open>str.strip\<close> drops such characters at both ends.
\<close>

definition isspace :: "char \<Rightarrow> bool" where
  "isspace c =
     (let n = (of_char c :: nat)
      in (9 \<le> n \<and> n \<le> 13) \<or> (28 \<le> n \<and> n \<le> 32) \<or> n = 133 \<or> n = 160)"

definition strip :: "string \<Rightarrow> string" where
  "strip s = rev (dropWhile isspace (rev (dropWhile isspace s)))"

text \<open>\<open>UUID.hex\<close>: the 32 lower-case hexadecimal digits of the 128-bit value.\<close>

definition hex_digit :: "nat \<Rightarrow> char" where
  "hex_digit d = ''0123456789abcdef'' ! (d mod 16)"

fun hex_pad :: "nat \<Rightarrow> nat \<Rightarrow> string" where
  "hex_pad 0 n = []"
| "hex_pad (Suc w) n = hex_pad w (n div 16) @ [hex_digit n]"

definition uuid_hex :: "uuid \<Rightarrow> string" where
  "uuid_hex u = hex_pad 32 u"

record CloneWorker =
  id_hex :: string
  prefix_str :: string
  source_vm :: string
  name_init :: string
  name_ready :: string
  name_error :: string
  folder_2_vm :: string
  retries :: int
  ip_timeout :: int

definition CloneWorker_init :: "Settings \<Rightarrow> CloneTask \<Rightarrow> CloneWorker" where
  "CloneWorker_init cfg task =
     (let h = take 8 (uuid_hex (job_id task)); p = strip (vm_prefix cfg)
      in \<lparr>id_hex = h,
          prefix_str = p,
          source_vm = ''['' @ p @ ''] '' @ golden_name cfg,
          name_init = ''['' @ p @ ''] VMInit_'' @ h,
          name_ready = ''['' @ p @ ''] VM2login_'' @ h,
          name_error = ''['' @ p @ ''] VMError_'' @ h,
          folder_2_vm = ''DC1/ZeonVM/'' @ p @ ''/LoginVMs'',
          retries = pool_op_retries cfg,
          ip_timeout = cfg_ip_timeout cfg\<rparr>)"

text \<open>The pool calls on \<open>self.vm\<close>, which is read when the call is made.\<close>

definition power_on_vm_call :: "(nat \<Rightarrow> outcome) \<Rightarrow> val action" where
  "power_on_vm_call env w = ext_call env (Power_on_vm (self_vm w)) w"

definition power_off_vm_call :: "(nat \<Rightarrow> outcome) \<Rightarrow> val action" where
  "power_off_vm_call env w = ext_call env (Power_off_vm (self_vm w)) w"

definition wait_for_vm_ready_call :: "(nat \<Rightarrow> outcome) \<Rightarrow> int \<Rightarrow> val action" where
  "wait_for_vm_ready_call env timeout w = ext_call env (Wait_for_vm_ready (self_vm w) timeout) w"

definition mark_ready_call :: "(nat \<Rightarrow> outcome) \<Rightarrow> val action" where
  "mark_ready_call env w = ext_call env (Mark_ready (self_vm w)) w"

definition mark_fault_call :: "(nat \<Rightarrow> outcome) \<Rightarrow> val action" where
  "mark_fault_call env w = ext_call env (Mark_fault (self_vm w)) w"

definition restart_vm_call :: "(nat \<Rightarrow> outcome) \<Rightarrow> val action" where
  "restart_vm_call env w = ext_call env (Restart_vm (self_vm w)) w"

text \<open>
  \<open>_bliss_init\<close>: \<open>for attempt in range(1, 4)\<close>. \<open>BlisInitSetup_run\<close> stands for the
  whole \<open>with BlisInitSetup(...) as init: init.run()\<close>. A \<open>TimeoutError\<close> goes to
  \<open>continue\<close>; another exception re-raises on attempt 3, and before that restarts the VM
  and waits for it (an exception of the handler itself leaves the function). When the
  loop is exhausted the function falls off its end and returns None.
\<close>

fun bliss_loop :: "(nat \<Rightarrow> outcome) \<Rightarrow> nat \<Rightarrow> int \<Rightarrow> val \<Rightarrow> val action" where
  "bliss_loop env 0 attempt ip w = (Inr NoneV, w)"
| "bliss_loop env (Suc k) attempt ip w =
     (case ext_call env (BlisInitSetup_run ip) w of
        (Inr r, w1) \<Rightarrow> (Inr ip, w1)
      | (Inl TimeoutError, w1) \<Rightarrow> bliss_loop env k (attempt + 1) ip w1
      | (Inl OtherError, w1) \<Rightarrow>
          if attempt = 3 then (Inl OtherError, w1)
          else
            (case ext_call env Ensure_nsx_alive w1 of
               (Inl e, w2) \<Rightarrow> (Inl e, w2)
             | (Inr a, w2) \<Rightarrow>
                 (case restart_vm_call env w2 of
                    (Inl e, w3) \<Rightarrow> (Inl e, w3)
                  | (Inr b, w3) \<Rightarrow>
                      (case wait_for_vm_ready_call env 300 w3 of
                         (Inl e, w4) \<Rightarrow> (Inl e, w4)
                       | (Inr ip', w4) \<Rightarrow> bliss_loop env k (attempt + 1) ip' w4))))"

definition bliss_init :: "(nat \<Rightarrow> outcome) \<Rightarrow> val \<Rightarrow> val action" where
  "bliss_init env ip = bliss_loop env 3 1 ip"

text \<open>
  \<open>_game_init\<close>. \<open>self.vm.name\<close> is read inside the \<open>try\<close>: on \<open>self.vm = None\<close> it
  raises AttributeError there.
\<close>

definition game_tutorial_run :: "(nat \<Rightarrow> outcome) \<Rightarrow> val \<Rightarrow> val action" where
  "game_tutorial_run env ip w =
     (if self_vm w = NoneV then (Inl OtherError, w)
      else ext_call env (GameTutorial_run ip (self_vm w)) w)"

fun game_loop :: "(nat \<Rightarrow> outcome) \<Rightarrow> nat \<Rightarrow> int \<Rightarrow> val \<Rightarrow> val action" where
  "game_loop env 0 attempt ip w = (Inr NoneV, w)"
| "game_loop env (Suc k) attempt ip w =
     (case game_tutorial_run env ip w of
        (Inr r, w1) \<Rightarrow> (Inr NoneV, w1)
      | (Inl e, w1) \<Rightarrow>
          if attempt = 3 then (Inl e, w1)
          else
            (case restart_vm_call env w1 of
               (Inl e2, w2) \<Rightarrow> (Inl e2, w2)
             | (Inr b, w2) \<Rightarrow>
                 (case wait_for_vm_ready_call env 300 w2 of
                    (Inl e3, w3) \<Rightarrow> (Inl e3, w3)
                  | (Inr ip', w3) \<Rightarrow> game_loop env k (attempt + 1) ip' w3)))"

definition game_init :: "(nat \<Rightarrow> outcome) \<Rightarrow> val \<Rightarrow> val action" where
  "game_init env ip = game_loop env 3 1 ip"

text \<open>\<open>prepare_vm\<close>, statement by statement.\<close>

definition prepare_vm_body :: "(nat \<Rightarrow> outcome) \<Rightarrow> CloneWorker \<Rightarrow> val action" where
  "prepare_vm_body env wk =
     then_do (retry_sync (ext_call env (Clone_vm (source_vm wk) (name_init wk) (folder_2_vm wk)))
                (retries wk)) (\<lambda>vm.
     then_do (set_self_vm vm) (\<lambda>u1.
     then_do (retry_sync (power_on_vm_call env) (retries wk)) (\<lambda>u2.
     then_do (retry_sync (wait_for_vm_ready_call env (ip_timeout wk)) (retries wk)) (\<lambda>ip.
     then_do (bliss_init env ip) (\<lambda>ip2.
     then_do (game_init env ip2) (\<lambda>u3.
     then_do (mark_ready_call env) (\<lambda>u4.
     then_do (power_off_vm_call env) (\<lambda>u5.
     then_do (result_q_put \<lparr>status = ''ok'', vm_name = name_ready wk, message = None\<rparr>) (\<lambda>u6.
     then_do (retry_sync (power_off_vm_call env) (retries wk)) (\<lambda>u7.
     then_do (retry_sync (mark_ready_call env) (retries wk)) (\<lambda>u8.
     result_q_put \<lparr>status = ''ok'', vm_name = name_ready wk, message = None\<rparr>)))))))))))"

definition prepare_vm :: "(nat \<Rightarrow> outcome) \<Rightarrow> CloneWorker \<Rightarrow> val action" where
  "prepare_vm env wk = with_pool env (prepare_vm_body env wk)"

text \<open>The text of \<open>traceback.format_exc()\<close> is kept as the name of the exception.\<close>

fun format_exc :: "exn \<Rightarrow> string" where
  "format_exc TimeoutError = ''TimeoutError''"
| "format_exc OtherError = ''Exception''"

fun truthy :: "val \<Rightarrow> bool" where
  "truthy NoneV = False"
| "truthy (StrV s) = (s \<noteq> [])"
| "truthy (VmV n) = True"

definition cleanup_on_error :: "(nat \<Rightarrow> outcome) \<Rightarrow> CloneWorker \<Rightarrow> exn \<Rightarrow> val action" where
  "cleanup_on_error env wk exc =
     then_do
       (try_pass (with_pool env (\<lambda>w.
          if truthy (self_vm w)
          then then_do (try_pass (retry_sync (power_off_vm_call env) (retries wk)))
                 (\<lambda>u. mark_fault_call env) w
          else (Inr NoneV, w))))
       (\<lambda>u. result_q_put
          \<lparr>status = ''err'', vm_name = name_error wk, message = Some (format_exc exc)\<rparr>)"

text \<open>
  \<open>CloneWorker.run\<close> in a fresh process: the result queue is empty, \<open>self.vm\<close> is
  None. The function returns the world the process leaves behind.
\<close>

definition world_init :: world where
  "world_init = \<lparr>pos = 0, calls = [], result_q = [], self_vm = NoneV\<rparr>"

definition CloneWorker_run :: "(nat \<Rightarrow> outcome) \<Rightarrow> Settings \<Rightarrow> CloneTask \<Rightarrow> world" where
  "CloneWorker_run env cfg task =
     (let wk = CloneWorker_init cfg task
      in case prepare_vm env wk world_init of
           (Inr r, w) \<Rightarrow> w
         | (Inl exc, w) \<Rightarrow> snd (cleanup_on_error env wk exc w))"

text \<open>An environment from a script of outcomes; every later call returns None.\<close>

definition scripted :: "outcome list \<Rightarrow> nat \<Rightarrow> outcome" where
  "scripted os k = (if k < length os then os ! k else Returns NoneV)"

text \<open>
  Two environments for a run with the default settings. In \<open>all_return\<close> every call
  returns: the pool manager connects, \<open>clone_vm\<close> returns the VM,
  \<open>wait_for_vm_ready\<close> returns the IP. In \<open>install_timeouts\<close> the same holds, but the
  guest bootstrap raises \<open>TimeoutError\<close> on each of its three attempts.
\<close>

definition example_settings :: Settings where
  "example_settings =
     \<lparr>vm_prefix = ''Dev'', golden_name = ''Golden'', pool_op_retries = 3, cfg_ip_timeout = 10\<rparr>"

definition all_return :: "nat \<Rightarrow> outcome" where
  "all_return =
     scripted [Returns NoneV, Returns (VmV ''vm-101''), Returns NoneV, Returns (StrV ''10.0.0.1'')]"

definition install_timeouts :: "nat \<Rightarrow> outcome" where
  "install_timeouts =
     scripted [Returns NoneV, Returns (VmV ''vm-101''), Returns NoneV, Returns (StrV ''10.0.0.1''),
               Raises TimeoutError, Raises TimeoutError, Raises TimeoutError]"

text \<open>The position of the first call of a kind in the sequence of calls.\<close>

fun first_pos :: "('a \<Rightarrow> bool) \<Rightarrow> 'a list \<Rightarrow> nat option" where
  "first_pos P [] = None"
| "first_pos P (x # xs) = (if P x then Some 0 else map_option Suc (first_pos P xs))"

fun is_power_off_vm :: "call \<Rightarrow> bool" where
  "is_power_off_vm (Power_off_vm v) = True"
| "is_power_off_vm c = False"

fun is_mark_ready :: "call \<Rightarrow> bool" where
  "is_mark_ready (Mark_ready v) = True"
| "is_mark_ready c = False"

section \<open>list_init_vms (app/vsphere_pool_manager.py)\<close>

text \<open>
  A \<open>datetime\<close> is its wall-clock reading, in microseconds from a fixed origin, and its
  \<open>tzinfo\<close>: None for a naive value, or the UTC offset in microseconds. The instant it
  denotes in UTC is the reading minus the offset. The bounds of \<open>datetime\<close> (years 1 to
  9999) are not modelled.
\<close>

record datetime =
  wall :: int
  tzinfo :: "int option"

definition replace_tzinfo_None :: "datetime \<Rightarrow> datetime" where
  "replace_tzinfo_None d = d\<lparr>tzinfo := None\<rparr>"

definition timedelta_minutes :: "int \<Rightarrow> int" where
  "timedelta_minutes m = m * 60000000"

text \<open>
  \<open>utcnow()\<close> is naive: its reading is the current UTC time. Subtracting a
  \<open>timedelta\<close> keeps the \<open>tzinfo\<close>; \<open>\<le>\<close> between two naive values compares the
  readings.
\<close>

definition utcnow :: "int \<Rightarrow> datetime" where
  "utcnow now = \<lparr>wall = now, tzinfo = None\<rparr>"

definition datetime_minus :: "datetime \<Rightarrow> int \<Rightarrow> datetime" where
  "datetime_minus d delta = d\<lparr>wall := wall d - delta\<rparr>"

definition naive_le :: "datetime \<Rightarrow> datetime \<Rightarrow> bool" where
  "naive_le a b = (wall a \<le> wall b)"

text \<open>
  What the pool manager reads of a VM: its name, the names of its ancestors
  (\<open>vm.parent\<close>, \<open>vm.parent.parent\<close>, ...), \<open>config.createDate\<close> (None also when
  \<open>vm.config\<close> is None) and \<open>runtime.bootTime\<close>.
\<close>

record VirtualMachine =
  name :: string
  parents :: "string list"
  createDate :: "datetime option"
  bootTime :: "datetime option"

definition is_vm_in_env_folder :: "string \<Rightarrow> VirtualMachine \<Rightarrow> bool" where
  "is_vm_in_env_folder vm_prefix' vm = (vm_prefix' \<in> set (parents vm))"

definition env_vms :: "string \<Rightarrow> VirtualMachine list \<Rightarrow> VirtualMachine list" where
  "env_vms vm_prefix' vm_list = filter (is_vm_in_env_folder vm_prefix') vm_list"

definition startswith :: "string \<Rightarrow> string \<Rightarrow> bool" where
  "startswith s p = prefix p s"

text \<open>\<open>getattr(vm.config, "createDate", None) or getattr(vm.runtime, "bootTime", None)\<close>\<close>

definition created :: "VirtualMachine \<Rightarrow> datetime option" where
  "created vm = (case createDate vm of Some d \<Rightarrow> Some d | None \<Rightarrow> bootTime vm)"

text \<open>
  \<open>list_init_vms\<close> of a pool manager with prefix \<open>_vm_prefix\<close>, at UTC time \<open>now\<close>, on
  the VM list the session returns.
\<close>

definition list_init_vms :: "string \<Rightarrow> int \<Rightarrow> VirtualMachine list \<Rightarrow> int \<Rightarrow> string list" where
  "list_init_vms vm_prefix' now vm_list older_than_minutes =
     (if older_than_minutes \<le> 0 then []
      else
        let prefix_init = ''['' @ vm_prefix' @ ''] VMInit_'';
            cutoff = datetime_minus (utcnow now) (timedelta_minutes older_than_minutes)
        in map name
             (filter
                (\<lambda>vm. startswith (name vm) prefix_init
                   \<and> (case created vm of
                        None \<Rightarrow> False
                      | Some c \<Rightarrow> naive_le (replace_tzinfo_None c) cutoff))
                (env_vms vm_prefix' vm_list)))"

text \<open>
  The age of a timestamp at UTC time \<open>now\<close>, in microseconds: the time since the instant
  it denotes (a naive value is read as UTC).
\<close>

definition utc_instant :: "datetime \<Rightarrow> int" where
  "utc_instant d = (case tzinfo d of None \<Rightarrow> wall d | Some off \<Rightarrow> wall d - off)"

definition utc_age :: "int \<Rightarrow> datetime \<Rightarrow> int" where
  "utc_age now d = now - utc_instant d"

text \<open>
  An init VM in the environment folder \<open>Dev\<close> whose \<open>createDate\<close> reads 12:00 at
  offset +03:00, that is 09:00 UTC, and the UTC time 10:30 of the same day.
\<close>

definition hours :: "int \<Rightarrow> int" where
  "hours h = h * 3600000000"

definition stuck_vm :: VirtualMachine where
  "stuck_vm =
     \<lparr>name = ''[Dev] VMInit_0a1b2c3d'',
      parents = [''LoginVMs'', ''Dev'', ''ZeonVM'', ''vm'', ''DC1''],
      createDate = Some \<lparr>wall = hours 12, tzinfo = Some (hours 3)\<rparr>,
      bootTime = None\<rparr>"

definition half_past_ten :: int where
  "half_past_ten = hours 10 + 1800000000"

section \<open>parse_arp_table (source/core/VMware/NSXManager.py)\<close>

text \<open>
  \<open>str.splitlines()\<close>: a line ends at \<open>\n\<close>, \<open>\r\<close>, \<open>\r\n\<close>, \<open>\v\<close>, \<open>\f\<close>, the
  separators 28 to 30, or 133; the line ends are dropped, and there is no empty last line.
\<close>

definition is_linebreak :: "char \<Rightarrow> bool" where
  "is_linebreak c =
     (let n = (of_char c :: nat) in (10 \<le> n \<and> n \<le> 13) \<or> (28 \<le> n \<and> n \<le> 30) \<or> n = 133)"

fun splitlines_from :: "string \<Rightarrow> string \<Rightarrow> string list" where
  "splitlines_from cur [] = (if cur = [] then [] else [cur])"
| "splitlines_from cur (c # cs) =
     (if is_linebreak c
      then (case cs of
              d # ds \<Rightarrow>
                if c = CHR 0x0D \<and> d = CHR 0x0A then cur # splitlines_from [] ds
                else cur # splitlines_from [] cs
            | [] \<Rightarrow> cur # splitlines_from [] cs)
      else splitlines_from (cur @ [c]) cs)"

definition splitlines :: "string \<Rightarrow> string list" where
  "splitlines s = splitlines_from [] s"

text \<open>\<open>str.split()\<close>: the maximal runs of characters that are not whitespace.\<close>

fun split_from :: "string \<Rightarrow> string \<Rightarrow> string list" where
  "split_from cur [] = (if cur = [] then [] else [cur])"
| "split_from cur (c # cs) =
     (if isspace c
      then (if cur = [] then split_from [] cs else cur # split_from [] cs)
      else split_from (cur @ [c]) cs)"

definition split :: "string \<Rightarrow> string list" where
  "split s = split_from [] s"

text \<open>
  \<open>re.match(r"\d+\.\d+\.\d+\.\d+", s)\<close> matches at the start of \<open>s\<close> and says nothing
  of what follows. A digit is never a dot, so each of the first three groups takes all
  the digits there are. \<open>eat_digits\<close> gives what is left after \<open>\d+\<close>.
\<close>

definition isdigit :: "char \<Rightarrow> bool" where
  "isdigit c = (let n = (of_char c :: nat) in 48 \<le> n \<and> n \<le> 57)"

definition eat_digits :: "string \<Rightarrow> string option" where
  "eat_digits s = (if takeWhile isdigit s = [] then None else Some (dropWhile isdigit s))"

definition eat_dot :: "string \<Rightarrow> string option" where
  "eat_dot s = (case s of c # cs \<Rightarrow> if c = CHR ''.'' then Some cs else None | [] \<Rightarrow> None)"

definition eat_group_dot :: "string \<Rightarrow> string option" where
  "eat_group_dot s = (case eat_digits s of None \<Rightarrow> None | Some r \<Rightarrow> eat_dot r)"

definition ipv4_rest :: "string \<Rightarrow> string option" where
  "ipv4_rest s =
     (case eat_group_dot s of None \<Rightarrow> None
      | Some r1 \<Rightarrow>
     (case eat_group_dot r1 of None \<Rightarrow> None
      | Some r2 \<Rightarrow>
     (case eat_group_dot r2 of None \<Rightarrow> None
      | Some r3 \<Rightarrow> eat_digits r3)))"

definition match_ipv4 :: "string \<Rightarrow> bool" where
  "match_ipv4 s = (ipv4_rest s \<noteq> None)"

text \<open>\<open>re.match(r"[0-9A-Fa-f:]{17}", s)\<close>: the first 17 characters are in the class.\<close>

definition is_hex :: "char \<Rightarrow> bool" where
  "is_hex c =
     (let n = (of_char c :: nat)
      in (48 \<le> n \<and> n \<le> 57) \<or> (65 \<le> n \<and> n \<le> 70) \<or> (97 \<le> n \<and> n \<le> 102))"

definition mac_class :: "char \<Rightarrow> bool" where
  "mac_class c = (is_hex c \<or> c = CHR '':'')"

definition match_mac :: "string \<Rightarrow> bool" where
  "match_mac s = (17 \<le> length s \<and> list_all mac_class (take 17 s))"

text \<open>\<open>str.lower()\<close> on code points below 256.\<close>

definition lower_char :: "char \<Rightarrow> char" where
  "lower_char c =
     (let n = (of_char c :: nat)
      in if (65 \<le> n \<and> n \<le> 90) \<or> (192 \<le> n \<and> n \<le> 222 \<and> n \<noteq> 215)
         then char_of (n + 32) else c)"

definition lower :: "string \<Rightarrow> string" where
  "lower s = map lower_char s"

text \<open>The test the loop body makes on a line, and the entry it stores.\<close>

definition arp_line_ok :: "string \<Rightarrow> bool" where
  "arp_line_ok line =
     (let parts = split line
      in 4 \<le> length parts \<and> match_ipv4 (parts ! 1) \<and> match_mac (parts ! 2))"

definition arp_entry :: "string \<Rightarrow> string \<times> string" where
  "arp_entry line = (let parts = split line in (lower (parts ! 2), parts ! 1))"

definition arp_step :: "(string \<rightharpoonup> string) \<Rightarrow> string \<Rightarrow> (string \<rightharpoonup> string)" where
  "arp_step arp_map line =
     (let parts = split line
      in if 4 \<le> length parts
         then let ip_candidate = parts ! 1; mac_candidate = parts ! 2
              in if match_ipv4 ip_candidate \<and> match_mac mac_candidate
                 then arp_map(lower mac_candidate \<mapsto> ip_candidate)
                 else arp_map
         else arp_map)"

definition parse_arp_table :: "string \<Rightarrow> (string \<rightharpoonup> string)" where
  "parse_arp_table raw_output = foldl arp_step Map.empty (splitlines raw_output)"

text \<open>
  The words of the specification: a canonical MAC address is 17 characters, six pairs of
  hexadecimal digits separated by colons; a dotted quad is four groups of digits
  separated by dots, and nothing else.
\<close>

definition canonical_mac :: "string \<Rightarrow> bool" where
  "canonical_mac s =
     (length s = 17
      \<and> list_all (\<lambda>i. if i mod 3 = 2 then s ! i = CHR '':'' else is_hex (s ! i)) [0..<17])"

definition dotted_quad :: "string \<Rightarrow> bool" where
  "dotted_quad s = (ipv4_rest s = Some [])"

section \<open>VSphereManager (source/core/VMware/VSphereManager.py, VSphereConnection.py)\<close>

text \<open>
  The part of vCenter the manager talks to. A VM handle is the id of a managed object;
  its properties (\<open>name\<close>, \<open>runtime.powerState\<close>, \<open>parent\<close>, \<open>datastore\<close>,
  \<open>resourcePool\<close>) are read from the inventory. \<open>session_probe\<close> is what
  \<open>si.CurrentTime()\<close> does: it returns, raises \<open>NotAuthenticated\<close>, or raises
  something else; \<open>connect_ok\<close> says whether \<open>_connect\<close> succeeds. \<open>task_ok\<close> and
  \<open>create_folder_ok\<close> say whether a power or clone task, and a \<open>CreateFolder\<close> call,
  succeed; every task started ends (\<open>wait_for_task\<close> returns or raises), and \<open>tasks\<close>
  records the tasks and folder creations started. Every VM has a parent folder.
\<close>

datatype power_state = poweredOn | poweredOff | suspended

datatype probe = Probe_ok | Probe_not_authenticated | Probe_fails

datatype vs_task =
    PowerOn nat
  | PowerOff nat
  | Suspend nat
  | CreateFolder string nat
  | Clone nat nat string

datatype vs_error =
    ConnectError
  | SessionError
  | ManagedObjectNotFound
  | VMNotFoundError string
  | VMPowerOnError string power_state
  | VMPowerOffError string power_state
  | TypeError
  | VMCloneError string
  | DatacenterNotFound string
  | CreateFolderError

record vm_obj =
  moid :: nat
  vname :: string
  powerState :: power_state
  vparent :: nat
  datastore :: "string list"
  resourcePool :: string

record folder_obj =
  fid :: nat
  fname :: string
  fparent :: "nat option"

record datacenter_obj =
  dc_name :: string
  vmFolder :: nat

record vcenter =
  session_probe :: probe
  connect_ok :: bool
  inventory :: "vm_obj list"
  folders :: "folder_obj list"
  datacenters :: "datacenter_obj list"
  task_ok :: bool
  create_folder_ok :: bool
  tasks :: "vs_task list"
  next_id :: nat

type_synonym 'a vs = "(vs_error + 'a) \<times> vcenter"

text \<open>\<open>VSphereConnection.reconnect_if_needed\<close>\<close>

definition reconnect_if_needed :: "vcenter \<Rightarrow> bool vs" where
  "reconnect_if_needed vc =
     (case session_probe vc of
        Probe_ok \<Rightarrow> (Inr False, vc)
      | Probe_not_authenticated \<Rightarrow>
          if connect_ok vc then (Inr True, vc\<lparr>session_probe := Probe_ok\<rparr>)
          else (Inl ConnectError, vc)
      | Probe_fails \<Rightarrow> (Inl SessionError, vc))"

text \<open>
  \<open>get_obj\<close> walks a container view of the whole inventory and returns the first
  object of the name; the view needs a live session.
\<close>

definition get_vm_by_name :: "vcenter \<Rightarrow> string \<Rightarrow> vs_error + nat option" where
  "get_vm_by_name vc n =
     (if session_probe vc = Probe_ok
      then Inr (map_option moid (find (\<lambda>v. vname v = n) (inventory vc)))
      else Inl SessionError)"

definition get_folder_by_name :: "vcenter \<Rightarrow> string \<Rightarrow> vs_error + nat option" where
  "get_folder_by_name vc n =
     (if session_probe vc = Probe_ok
      then Inr (map_option fid (find (\<lambda>f. fname f = n) (folders vc)))
      else Inl SessionError)"

definition vm_of :: "vcenter \<Rightarrow> nat \<Rightarrow> vm_obj option" where
  "vm_of vc vm = find (\<lambda>v. moid v = vm) (inventory vc)"

definition folder_of :: "vcenter \<Rightarrow> nat \<Rightarrow> folder_obj option" where
  "folder_of vc f = find (\<lambda>x. fid x = f) (folders vc)"

definition set_power_state :: "nat \<Rightarrow> power_state \<Rightarrow> vm_obj list \<Rightarrow> vm_obj list" where
  "set_power_state vm st vms = map (\<lambda>v. if moid v = vm then v\<lparr>powerState := st\<rparr> else v) vms"

text \<open>
  The decorator \<open>ensure_vm_connection\<close>: after a reconnect the handle is looked up
  again by the name of the VM.
\<close>

definition ensure_vm_connection :: "(vcenter \<Rightarrow> nat \<Rightarrow> 'a vs) \<Rightarrow> vcenter \<Rightarrow> nat \<Rightarrow> 'a vs" where
  "ensure_vm_connection fn vc vm =
     (case reconnect_if_needed vc of
        (Inl e, vc1) \<Rightarrow> (Inl e, vc1)
      | (Inr reconnected, vc1) \<Rightarrow>
          if reconnected
          then (case vm_of vc1 vm of
                  None \<Rightarrow> (Inl ManagedObjectNotFound, vc1)
                | Some v \<Rightarrow>
                    (case get_vm_by_name vc1 (vname v) of
                       Inl e \<Rightarrow> (Inl e, vc1)
                     | Inr None \<Rightarrow> (Inl (VMNotFoundError (vname v)), vc1)
                     | Inr (Some new_vm) \<Rightarrow> fn vc1 new_vm))
          else fn vc1 vm)"

text \<open>The bodies of \<open>power_on_vm\<close>, \<open>suspend_vm\<close> and \<open>power_off_vm\<close>.\<close>

definition power_on_vm_body :: "vcenter \<Rightarrow> nat \<Rightarrow> unit vs" where
  "power_on_vm_body vc vm =
     (case vm_of vc vm of
        None \<Rightarrow> (Inl ManagedObjectNotFound, vc)
      | Some v \<Rightarrow>
          let current_state = powerState v
          in if current_state = poweredOn then (Inr (), vc)
             else
               let vc1 = vc\<lparr>tasks := tasks vc @ [PowerOn vm]\<rparr>
               in if task_ok vc
                  then (Inr (), vc1\<lparr>inventory := set_power_state vm poweredOn (inventory vc1)\<rparr>)
                  else (Inl (VMPowerOnError (vname v) current_state), vc1))"

text \<open>
  On a failed task \<open>suspend_vm\<close> builds \<open>VMSuspendError(vm.name, logger=..., details=...)\<close>,
  whose constructor takes \<open>current_state\<close> and no \<open>details\<close>: the call raises
  \<open>TypeError\<close>.
\<close>

definition suspend_vm_body :: "vcenter \<Rightarrow> nat \<Rightarrow> unit vs" where
  "suspend_vm_body vc vm =
     (case vm_of vc vm of
        None \<Rightarrow> (Inl ManagedObjectNotFound, vc)
      | Some v \<Rightarrow>
          let current_state = powerState v
          in if current_state = suspended then (Inr (), vc)
             else
               let vc1 = vc\<lparr>tasks := tasks vc @ [Suspend vm]\<rparr>
               in if task_ok vc
                  then (Inr (), vc1\<lparr>inventory := set_power_state vm suspended (inventory vc1)\<rparr>)
                  else (Inl TypeError, vc1))"

definition power_off_vm_body :: "vcenter \<Rightarrow> nat \<Rightarrow> unit vs" where
  "power_off_vm_body vc vm =
     (case vm_of vc vm of
        None \<Rightarrow> (Inl ManagedObjectNotFound, vc)
      | Some v \<Rightarrow>
          let current_state = powerState v
          in if current_state = poweredOff then (Inr (), vc)
             else
               let vc1 = vc\<lparr>tasks := tasks vc @ [PowerOff vm]\<rparr>
               in if task_ok vc
                  then (Inr (), vc1\<lparr>inventory := set_power_state vm poweredOff (inventory vc1)\<rparr>)
                  else (Inl (VMPowerOffError (vname v) current_state), vc1))"

definition power_on_vm :: "vcenter \<Rightarrow> nat \<Rightarrow> unit vs" where
  "power_on_vm = ensure_vm_connection power_on_vm_body"

definition suspend_vm :: "vcenter \<Rightarrow> nat \<Rightarrow> unit vs" where
  "suspend_vm = ensure_vm_connection suspend_vm_body"

definition power_off_vm :: "vcenter \<Rightarrow> nat \<Rightarrow> unit vs" where
  "power_off_vm = ensure_vm_connection power_off_vm_body"

text \<open>The handle the decorator hands to the body, or the error it raises.\<close>

definition entry_handle :: "vcenter \<Rightarrow> nat \<Rightarrow> vs_error + nat" where
  "entry_handle vc vm = fst (ensure_vm_connection (\<lambda>vc' vm'. (Inr vm', vc')) vc vm)"

definition power_state_of :: "vcenter \<Rightarrow> nat \<Rightarrow> power_state option" where
  "power_state_of vc vm = map_option powerState (vm_of vc vm)"

text \<open>
  \<open>create_folder\<close>: the reconnect check is outside the \<open>try\<close>; a failed
  \<open>CreateFolder\<close> is caught and None is returned.
\<close>

definition add_folder :: "string \<Rightarrow> nat \<Rightarrow> vcenter \<Rightarrow> vcenter" where
  "add_folder n parent vc =
     vc\<lparr>folders := folders vc @ [\<lparr>fid = next_id vc, fname = n, fparent = Some parent\<rparr>],
        next_id := Suc (next_id vc)\<rparr>"

definition create_folder :: "vcenter \<Rightarrow> string \<Rightarrow> nat \<Rightarrow> nat option vs" where
  "create_folder vc folder_name parent_folder =
     (case reconnect_if_needed vc of
        (Inl e, vc1) \<Rightarrow> (Inl e, vc1)
      | (Inr r, vc1) \<Rightarrow>
          let vc2 = vc1\<lparr>tasks := tasks vc1 @ [CreateFolder folder_name parent_folder]\<rparr>
          in if create_folder_ok vc2
             then (Inr (Some (next_id vc2)), add_folder folder_name parent_folder vc2)
             else (Inr None, vc2))"

text \<open>\<open>str.split('/')\<close>\<close>

fun split_on_from :: "char \<Rightarrow> string \<Rightarrow> string \<Rightarrow> string list" where
  "split_on_from sep cur [] = [cur]"
| "split_on_from sep cur (c # cs) =
     (if c = sep then cur # split_on_from sep [] cs else split_on_from sep (cur @ [c]) cs)"

definition split_on :: "char \<Rightarrow> string \<Rightarrow> string list" where
  "split_on sep s = split_on_from sep [] s"

text \<open>
  \<open>ensure_folder_path\<close>: from the VM folder of the datacenter, go down the path and
  create what is missing; here a failed \<open>CreateFolder\<close> raises.
\<close>

fun walk_path :: "vcenter \<Rightarrow> nat \<Rightarrow> string list \<Rightarrow> nat vs" where
  "walk_path vc cur_folder [] = (Inr cur_folder, vc)"
| "walk_path vc cur_folder (sub # subs) =
     (case find (\<lambda>f. fparent f = Some cur_folder \<and> fname f = sub) (folders vc) of
        Some f \<Rightarrow> walk_path vc (fid f) subs
      | None \<Rightarrow>
          let vc1 = vc\<lparr>tasks := tasks vc @ [CreateFolder sub cur_folder]\<rparr>
          in if create_folder_ok vc1
             then walk_path (add_folder sub cur_folder vc1) (next_id vc1) subs
             else (Inl CreateFolderError, vc1))"

definition ensure_folder_path :: "vcenter \<Rightarrow> string \<Rightarrow> nat vs" where
  "ensure_folder_path vc folder_path =
     (let parts = split_on CHR ''/'' folder_path; dc = hd parts
      in if session_probe vc \<noteq> Probe_ok then (Inl SessionError, vc)
         else case find (\<lambda>d. dc_name d = dc) (datacenters vc) of
                None \<Rightarrow> (Inl (DatacenterNotFound dc), vc)
              | Some d \<Rightarrow> walk_path vc (vmFolder d) (tl parts))"

text \<open>
  \<open>clone_vm\<close>, in two steps: the choice of the destination folder, then the clone
  task and the lookup of the new VM. The clone is powered off, on the first datastore
  and in the resource pool of the source.
\<close>

text \<open>\<open>original_folder.parent or original_folder\<close>\<close>

definition parent_or_self :: "vcenter \<Rightarrow> nat \<Rightarrow> nat" where
  "parent_or_self vc folder =
     (case folder_of vc folder of
        None \<Rightarrow> folder
      | Some f \<Rightarrow> (case fparent f of None \<Rightarrow> folder | Some p \<Rightarrow> p))"

definition destination_folder :: "vcenter \<Rightarrow> vm_obj \<Rightarrow> string option \<Rightarrow> nat vs" where
  "destination_folder vc source folder_name =
     (let original_folder = vparent source
      in case folder_name of
           None \<Rightarrow> (Inr original_folder, vc)
         | Some n \<Rightarrow>
             if n = [] then (Inr original_folder, vc)
             else if CHR ''/'' \<in> set n then ensure_folder_path vc n
             else
               (case get_folder_by_name vc n of
                  Inl e \<Rightarrow> (Inl e, vc)
                | Inr (Some folder_candidate) \<Rightarrow> (Inr folder_candidate, vc)
                | Inr None \<Rightarrow>
                    let base = parent_or_self vc original_folder
                    in case create_folder vc n base of
                         (Inl e, vc1) \<Rightarrow> (Inl e, vc1)
                       | (Inr (Some folder_candidate), vc1) \<Rightarrow> (Inr folder_candidate, vc1)
                       | (Inr None, vc1) \<Rightarrow> (Inr original_folder, vc1)))"

definition run_clone :: "vcenter \<Rightarrow> vm_obj \<Rightarrow> nat \<Rightarrow> string \<Rightarrow> nat vs" where
  "run_clone vc source dest new_vm_name =
     (let vc1 = vc\<lparr>tasks := tasks vc @ [Clone (moid source) dest new_vm_name]\<rparr>
      in if task_ok vc1
         then
           let vc2 = vc1\<lparr>inventory := inventory vc1 @
                        [\<lparr>moid = next_id vc1, vname = new_vm_name, powerState = poweredOff,
                          vparent = dest, datastore = [hd (datastore source)],
                          resourcePool = resourcePool source\<rparr>],
                      next_id := Suc (next_id vc1)\<rparr>
           in case get_vm_by_name vc2 new_vm_name of
                Inr (Some vm) \<Rightarrow> (Inr vm, vc2)
              | Inr None \<Rightarrow> (Inl (VMCloneError new_vm_name), vc2)
              | Inl e \<Rightarrow> (Inl e, vc2)
         else (Inl (VMCloneError new_vm_name), vc1))"

definition clone_vm :: "vcenter \<Rightarrow> string \<Rightarrow> string \<Rightarrow> string option \<Rightarrow> nat vs" where
  "clone_vm vc source_vm_name new_vm_name folder_name =
     (case get_vm_by_name vc source_vm_name of
        Inl e \<Rightarrow> (Inl e, vc)
      | Inr None \<Rightarrow> (Inl (VMCloneError new_vm_name), vc)
      | Inr (Some src) \<Rightarrow>
          (case vm_of vc src of
             None \<Rightarrow> (Inl ManagedObjectNotFound, vc)
           | Some source \<Rightarrow>
               if datastore source = [] then (Inl (VMCloneError new_vm_name), vc)
               else
                 (case destination_folder vc source folder_name of
                    (Inl e, vc1) \<Rightarrow> (Inl e, vc1)
                  | (Inr dest, vc1) \<Rightarrow> run_clone vc1 source dest new_vm_name)))"

text \<open>
  A small vCenter: the golden VM powered off in folder 10 (\<open>Dev\<close>, under folder 1), an
  init VM powered on, a ready VM suspended; the session is live, tasks succeed, folder
  creation fails.
\<close>

definition golden_vm :: vm_obj where
  "golden_vm =
     \<lparr>moid = 100, vname = ''[Dev] Golden'', powerState = poweredOff, vparent = 10,
      datastore = [''NFS_Raid''], resourcePool = ''DefaultPool''\<rparr>"

definition init_vm :: vm_obj where
  "init_vm =
     \<lparr>moid = 101, vname = ''[Dev] VMInit_0a1b2c3d'', powerState = poweredOn, vparent = 10,
      datastore = [''NFS_Raid''], resourcePool = ''DefaultPool''\<rparr>"

definition ready_vm :: vm_obj where
  "ready_vm =
     \<lparr>moid = 102, vname = ''[Dev] VM2login_00000001'', powerState = suspended, vparent = 10,
      datastore = [''NFS_Raid''], resourcePool = ''DefaultPool''\<rparr>"

definition example_vcenter :: vcenter where
  "example_vcenter =
     \<lparr>session_probe = Probe_ok, connect_ok = True,
      inventory = [golden_vm, init_vm, ready_vm],
      folders =
        [\<lparr>fid = 1, fname = ''vm'', fparent = None\<rparr>,
         \<lparr>fid = 10, fname = ''Dev'', fparent = Some 1\<rparr>],
      datacenters = [\<lparr>dc_name = ''DC1'', vmFolder = 1\<rparr>],
      task_ok = True, create_folder_ok = False, tasks = [], next_id = 200\<rparr>"

text \<open>The same vCenter with an expired session that cannot be opened again.\<close>

definition expired_vcenter :: vcenter where
  "expired_vcenter =
     example_vcenter\<lparr>session_probe := Probe_not_authenticated, connect_ok := False\<rparr>"

text \<open>The same vCenter with an expired session that can be opened again.\<close>

definition stale_vcenter :: vcenter where
  "stale_vcenter = example_vcenter\<lparr>session_probe := Probe_not_authenticated\<rparr>"

section \<open>Properties of the counter\<close>

lemma apply_counter_op_nonneg: "0 \<le> count c \<Longrightarrow> 0 \<le> count (apply_counter_op x c)"
  by (cases x) (simp_all add: inc_def dec_def value_of_def reset_to_def)

lemma run_counter_ops_nonneg: "0 \<le> count c \<Longrightarrow> 0 \<le> count (run_counter_ops xs c)"
  by (induction xs arbitrary: c) (simp_all add: apply_counter_op_nonneg)

text \<open>
  C7. The count is non-negative in every reachable state: whatever sequence of \<open>inc\<close>,
  \<open>dec\<close>, \<open>value\<close> and \<open>reset_to\<close> runs on the fresh counter, the count stays at or
  above 0. \<open>dec\<close> on a counter at 0 leaves it at 0, and \<open>reset_to v\<close> with a negative
  \<open>v\<close> stores 0.
\<close>

theorem pending_counter_nonneg:
  "count PendingCounter_init = 0
   \<and> 0 \<le> count (run_counter_ops xs PendingCounter_init)
   \<and> (count c = 0 \<longrightarrow> count (dec c) = 0)
   \<and> (v < 0 \<longrightarrow> count (reset_to v d) = 0)"
proof -
  have "0 \<le> count PendingCounter_init"
    by (simp add: PendingCounter_init_def)
  then have "0 \<le> count (run_counter_ops xs PendingCounter_init)"
    by (rule run_counter_ops_nonneg)
  then show ?thesis
    by (simp add: PendingCounter_init_def dec_def reset_to_def)
qed

theorem pending_counter_nonneg_witness:
  "count PendingCounter_init = 0
   \<and> 0 \<le> count (run_counter_ops [Op_dec, Op_inc, Op_value, Op_reset_to (- 5), Op_dec] PendingCounter_init)
   \<and> count (dec PendingCounter_init) = 0
   \<and> count (reset_to (- 5) (inc PendingCounter_init)) = 0"
  using pending_counter_nonneg
    [where xs = "[Op_dec, Op_inc, Op_value, Op_reset_to (- 5), Op_dec]"
       and c = PendingCounter_init and v = "- 5" and d = "inc PendingCounter_init"]
  by (simp add: PendingCounter_init_def)

section \<open>Properties of the reconciler tick\<close>

lemma enqueue_loop_queue:
  "\<exists>new. clone_queue (enqueue_loop u n s) = clone_queue s @ new \<and> length new = n
     \<and> events (enqueue_loop u n s) = events s @ concat (map (\<lambda>t. [EvPut t, EvInc]) new)"
proof (induction n arbitrary: s)
  case 0
  then show ?case by simp
next
  case (Suc n)
  let ?t = "\<lparr>job_id = u (length (clone_queue s))\<rparr>"
  let ?s1 = "pending_inc (queue_put ?t s)"
  from Suc.IH [of ?s1] obtain new where
    n: "clone_queue (enqueue_loop u n ?s1) = clone_queue ?s1 @ new" "length new = n"
       "events (enqueue_loop u n ?s1) = events ?s1 @ concat (map (\<lambda>t. [EvPut t, EvInc]) new)"
    by blast
  have q: "clone_queue ?s1 = clone_queue s @ [?t]" and e: "events ?s1 = events s @ [EvPut ?t, EvInc]"
    by (simp_all add: pending_inc_def queue_put_def)
  show ?case
    apply (rule exI [of _ "?t # new"])
    using n q e by simp
qed

lemma enqueue_loop_count: "count (pending (enqueue_loop u n s)) = count (pending s) + int n"
  by (induction n arbitrary: s) (simp_all add: pending_inc_def queue_put_def inc_def)

lemma enqueue_loop_enqueued:
  "length (enqueued s (enqueue_loop u n s)) = n
   \<and> clone_queue (enqueue_loop u n s) = clone_queue s @ enqueued s (enqueue_loop u n s)
   \<and> new_events s (enqueue_loop u n s) =
       concat (map (\<lambda>t. [EvPut t, EvInc]) (enqueued s (enqueue_loop u n s)))"
  using enqueue_loop_queue [of u n s] by (auto simp: enqueued_def new_events_def)

lemma counts_pairs:
  "count_puts (concat (map (\<lambda>t. [EvPut t, EvInc]) ts)) = length ts"
  "count_incs (concat (map (\<lambda>t. [EvPut t, EvInc]) ts)) = length ts"
  by (induction ts) simp_all

lemma put_before_inc_pairs: "put_before_inc (concat (map (\<lambda>t. [EvPut t, EvInc]) ts))"
proof -
  have "count_incs p \<le> count_puts p \<and> count_puts p \<le> Suc (count_incs p)"
    if "prefix p (concat (map (\<lambda>t. [EvPut t, EvInc]) ts))" for p
    using that
  proof (induction ts arbitrary: p)
    case Nil
    then show ?case by simp
  next
    case (Cons t ts)
    show ?case
    proof (cases p)
      case Nil
      then show ?thesis by simp
    next
      case (Cons a p1)
      with Cons.prems have a: "a = EvPut t"
        and p1: "prefix p1 (EvInc # concat (map (\<lambda>t. [EvPut t, EvInc]) ts))"
        by simp_all
      show ?thesis
      proof (cases p1)
        case Nil
        with Cons a show ?thesis by simp
      next
        case c2: (Cons b p2)
        with p1 have b: "b = EvInc"
          and p2: "prefix p2 (concat (map (\<lambda>t. [EvPut t, EvInc]) ts))"
          by simp_all
        from Cons.IH [OF p2] show ?thesis using Cons a c2 b by simp
      qed
    qed
  qed
  then show ?thesis
    by (simp add: put_before_inc_def list_all_iff)
qed

text \<open>
  C2, as the claim states it, fails: with \<open>min_ready_vm = 5\<close>, \<open>max_ready_vm = 1\<close>,
  \<open>batch_size = 3\<close> (the configuration is not validated), \<open>ready = 2\<close> and
  \<open>pending = 0\<close> the total 2 is below the low watermark, \<open>need\<close> is
  \<open>min 3 (1 - 2) = -1\<close>, and \<open>range(-1)\<close> is empty: the tick enqueues 0 tasks, not
  \<open>-1\<close>.
\<close>

theorem tick_enqueue_counterexample:
  "0 \<le> (2::int) \<and> 0 \<le> count (pending control_init)
   \<and> 2 + count (pending control_init)
       < min_ready_vm \<lparr>min_ready_vm = 5, max_ready_vm = 1, batch_size = 3\<rparr>
   \<and> int (length (enqueued control_init
         (tick \<lparr>min_ready_vm = 5, max_ready_vm = 1, batch_size = 3\<rparr> Suc 2 control_init)))
       \<noteq> min (batch_size \<lparr>min_ready_vm = 5, max_ready_vm = 1, batch_size = 3\<rparr>)
             (max_ready_vm \<lparr>min_ready_vm = 5, max_ready_vm = 1, batch_size = 3\<rparr>
               - (2 + count (pending control_init)))"
  by (simp add: tick_def control_init_def PendingCounter_init_def value_of_def enqueued_def)

text \<open>
  C2, amended. For every reconciler tick: if \<open>ready + pending < min_ready_vm\<close> the tick
  enqueues exactly \<open>max 0 (min batch_size (max_ready_vm - (ready + pending)))\<close> new
  CloneTasks (which is \<open>min batch_size (max_ready_vm - (ready + pending))\<close> whenever
  that number is not negative), appended to the queue, and increments pending once for
  each; otherwise it enqueues none. Consequently, whenever
  \<open>ready + pending \<le> max_ready_vm\<close> held when the counts were read, it still holds
  right after the tick's enqueue decision.
\<close>

theorem tick_enqueue_count:
  "int (length (enqueued s (tick cfg u ready s))) =
     (if ready + count (pending s) < min_ready_vm cfg
      then max 0 (min (batch_size cfg) (max_ready_vm cfg - (ready + count (pending s))))
      else 0)
   \<and> clone_queue (tick cfg u ready s) = clone_queue s @ enqueued s (tick cfg u ready s)
   \<and> count (pending (tick cfg u ready s)) =
       count (pending s) + int (length (enqueued s (tick cfg u ready s)))
   \<and> (ready + count (pending s) \<le> max_ready_vm cfg
        \<longrightarrow> ready + count (pending (tick cfg u ready s)) \<le> max_ready_vm cfg)"
proof (cases "ready + count (pending s) < min_ready_vm cfg")
  case True
  let ?n = "nat (min (batch_size cfg) (max_ready_vm cfg - (ready + count (pending s))))"
  have t: "tick cfg u ready s = enqueue_loop u ?n s"
    using True by (simp add: tick_def value_of_def)
  show ?thesis
    unfolding t using True enqueue_loop_enqueued [of s u ?n] enqueue_loop_count [of u ?n s]
    by auto
next
  case False
  then have t: "tick cfg u ready s = s"
    by (simp add: tick_def value_of_def)
  show ?thesis
    unfolding t using False by (simp add: enqueued_def)
qed

theorem tick_enqueue_count_witness:
  "int (length (enqueued control_init
      (tick \<lparr>min_ready_vm = 2, max_ready_vm = 4, batch_size = 3\<rparr> Suc 0 control_init))) = 3
   \<and> count (pending
      (tick \<lparr>min_ready_vm = 2, max_ready_vm = 4, batch_size = 3\<rparr> Suc 0 control_init)) = 3
   \<and> 0 + count (pending control_init)
       \<le> max_ready_vm \<lparr>min_ready_vm = 2, max_ready_vm = 4, batch_size = 3\<rparr>
   \<and> 0 + count (pending
      (tick \<lparr>min_ready_vm = 2, max_ready_vm = 4, batch_size = 3\<rparr> Suc 0 control_init))
       \<le> max_ready_vm \<lparr>min_ready_vm = 2, max_ready_vm = 4, batch_size = 3\<rparr>"
  using tick_enqueue_count
    [of control_init "\<lparr>min_ready_vm = 2, max_ready_vm = 4, batch_size = 3\<rparr>" Suc 0]
  by (simp add: control_init_def PendingCounter_init_def)

text \<open>
  C4, as the claim states it, fails: the tick with \<open>min = max = batch = 1\<close> on the
  empty control state makes the calls \<open>put, inc\<close> in this order, so right after the put
  has completed the counter is not yet incremented.
\<close>

theorem tick_inc_before_put_counterexample:
  "\<not> inc_before_put (new_events control_init
        (tick \<lparr>min_ready_vm = 1, max_ready_vm = 1, batch_size = 1\<rparr> Suc 0 control_init))"
  by (simp add: inc_before_put_def new_events_def tick_def control_init_def value_of_def
      PendingCounter_init_def queue_put_def pending_inc_def inc_def)

text \<open>
  C4, amended. In every reconciler tick, for each enqueued CloneTask the
  \<open>CLONE_QUEUE.put()\<close> call completes before the corresponding \<open>pending.inc()\<close> is
  made: the calls of the tick are \<open>put, inc\<close> once for each enqueued task, in queue
  order. So at every point of the tick the increments made are the completed puts or one
  fewer, and when the tick's loop is over pending has been incremented once for each put.
\<close>

theorem tick_put_before_inc:
  "new_events s (tick cfg u ready s) =
     concat (map (\<lambda>t. [EvPut t, EvInc]) (enqueued s (tick cfg u ready s)))
   \<and> put_before_inc (new_events s (tick cfg u ready s))
   \<and> count_incs (new_events s (tick cfg u ready s))
       = count_puts (new_events s (tick cfg u ready s))"
proof -
  have e: "new_events s (tick cfg u ready s) =
     concat (map (\<lambda>t. [EvPut t, EvInc]) (enqueued s (tick cfg u ready s)))"
  proof (cases "ready + count (pending s) < min_ready_vm cfg")
    case True
    then show ?thesis
      using enqueue_loop_enqueued by (simp add: tick_def value_of_def)
  next
    case False
    then show ?thesis
      by (simp add: tick_def value_of_def enqueued_def new_events_def)
  qed
  show ?thesis
    unfolding e by (simp add: put_before_inc_pairs counts_pairs)
qed

section \<open>Properties of the worker\<close>

lemma example_worker:
  "retries (CloneWorker_init example_settings task) = 3"
  "ip_timeout (CloneWorker_init example_settings task) = 10"
  "source_vm (CloneWorker_init example_settings task) = ''[Dev] Golden''"
  "folder_2_vm (CloneWorker_init example_settings task) = ''DC1/ZeonVM/Dev/LoginVMs''"
  "name_init (CloneWorker_init example_settings task)
     = ''[Dev] VMInit_'' @ take 8 (uuid_hex (job_id task))"
  "name_ready (CloneWorker_init example_settings task)
     = ''[Dev] VM2login_'' @ take 8 (uuid_hex (job_id task))"
  by (simp_all add: CloneWorker_init_def example_settings_def strip_def isspace_def Let_def)

lemma ext_call_eval:
  "ext_call env c w =
     (case env (pos w) of Returns v \<Rightarrow> Inr v | Raises e \<Rightarrow> Inl e,
      w\<lparr>pos := Suc (pos w), calls := calls w @ [c]\<rparr>)"
  by (simp add: ext_call_def Let_def split: outcome.splits)

lemma retry_sync_first:
  assumes "0 < r" and "case fst (fn w) of Inr v \<Rightarrow> True | Inl e \<Rightarrow> False"
  shows "retry_sync fn r w = fn w"
proof -
  from assms(1) obtain k where k: "nat r = Suc k"
    by (cases "nat r") auto
  from assms(2) obtain v w' where "fn w = (Inr v, w')"
    by (cases "fn w") (auto split: sum.splits)
  then show ?thesis
    by (simp add: retry_sync_def k)
qed

lemma three_Suc: "(3::nat) = Suc (Suc (Suc 0))"
  by simp

lemmas worker_defs =
  with_pool_def then_do_def scripted_def world_init_def set_self_vm_def power_on_vm_call_def
  power_off_vm_call_def wait_for_vm_ready_call_def mark_ready_call_def mark_fault_call_def
  restart_vm_call_def bliss_init_def game_init_def game_tutorial_run_def result_q_put_def
  try_pass_def

lemma all_return_prepare_vm:
  assumes "retries wk = 3"
  shows "prepare_vm all_return wk world_init =
     (Inr NoneV,
      \<lparr>pos = 11,
       calls =
         [Pool_connect,
          Clone_vm (source_vm wk) (name_init wk) (folder_2_vm wk),
          Power_on_vm (VmV ''vm-101''),
          Wait_for_vm_ready (VmV ''vm-101'') (ip_timeout wk),
          BlisInitSetup_run (StrV ''10.0.0.1''),
          GameTutorial_run (StrV ''10.0.0.1'') (VmV ''vm-101''),
          Mark_ready (VmV ''vm-101''),
          Power_off_vm (VmV ''vm-101''),
          Power_off_vm (VmV ''vm-101''),
          Mark_ready (VmV ''vm-101''),
          Pool_disconnect],
       result_q =
         [\<lparr>status = ''ok'', vm_name = name_ready wk, message = None\<rparr>,
          \<lparr>status = ''ok'', vm_name = name_ready wk, message = None\<rparr>],
       self_vm = VmV ''vm-101''\<rparr>)"
  by (simp add: assms prepare_vm_def prepare_vm_body_def all_return_def worker_defs
      ext_call_eval retry_sync_first three_Suc)

lemma install_timeouts_prepare_vm:
  assumes "retries wk = 3"
  shows "prepare_vm install_timeouts wk world_init =
     (Inr NoneV,
      \<lparr>pos = 13,
       calls =
         [Pool_connect,
          Clone_vm (source_vm wk) (name_init wk) (folder_2_vm wk),
          Power_on_vm (VmV ''vm-101''),
          Wait_for_vm_ready (VmV ''vm-101'') (ip_timeout wk),
          BlisInitSetup_run (StrV ''10.0.0.1''),
          BlisInitSetup_run (StrV ''10.0.0.1''),
          BlisInitSetup_run (StrV ''10.0.0.1''),
          GameTutorial_run NoneV (VmV ''vm-101''),
          Mark_ready (VmV ''vm-101''),
          Power_off_vm (VmV ''vm-101''),
          Power_off_vm (VmV ''vm-101''),
          Mark_ready (VmV ''vm-101''),
          Pool_disconnect],
       result_q =
         [\<lparr>status = ''ok'', vm_name = name_ready wk, message = None\<rparr>,
          \<lparr>status = ''ok'', vm_name = name_ready wk, message = None\<rparr>],
       self_vm = VmV ''vm-101''\<rparr>)"
  by (simp add: assms prepare_vm_def prepare_vm_body_def install_timeouts_def worker_defs
      ext_call_eval retry_sync_first three_Suc)

text \<open>
  Only \<open>result_q.put\<close> changes the result queue, and \<open>prepare_vm\<close> makes both of its
  puts before it returns: every run in which \<open>prepare_vm\<close> returns normally, whatever
  the environment and the settings, adds two \<open>ok\<close> results to the queue.
\<close>

lemma ext_call_result_q: "result_q (snd (ext_call env c w)) = result_q w"
  by (simp add: ext_call_def Let_def split: outcome.splits)

lemma retry_from_result_q:
  assumes "\<And>w. result_q (snd (fn w)) = result_q w"
  shows "result_q (snd (retry_from fn r k a w)) = result_q w"
proof (induction k arbitrary: a w)
  case 0
  then show ?case by simp
next
  case (Suc k)
  obtain x w1 where f: "fn w = (x, w1)" by (cases "fn w")
  with assms [of w] have q: "result_q w1 = result_q w" by simp
  show ?case
    using f q Suc.IH [of "a + 1" w1] by (cases x) simp_all
qed

lemma retry_sync_result_q:
  assumes "\<And>w. result_q (snd (fn w)) = result_q w"
  shows "result_q (snd (retry_sync fn r w)) = result_q w"
  unfolding retry_sync_def using assms by (rule retry_from_result_q)

lemma pool_calls_result_q:
  "result_q (snd (power_on_vm_call env w)) = result_q w"
  "result_q (snd (power_off_vm_call env w)) = result_q w"
  "result_q (snd (wait_for_vm_ready_call env t w)) = result_q w"
  "result_q (snd (mark_ready_call env w)) = result_q w"
  "result_q (snd (mark_fault_call env w)) = result_q w"
  "result_q (snd (restart_vm_call env w)) = result_q w"
  by (simp_all add: power_on_vm_call_def power_off_vm_call_def wait_for_vm_ready_call_def
      mark_ready_call_def mark_fault_call_def restart_vm_call_def ext_call_result_q)

lemma bliss_loop_result_q: "result_q (snd (bliss_loop env k a ip w)) = result_q w"
proof (induction k arbitrary: a ip w)
  case 0
  then show ?case by simp
next
  case (Suc k)
  obtain x1 w1 where c1: "ext_call env (BlisInitSetup_run ip) w = (x1, w1)"
    by (cases "ext_call env (BlisInitSetup_run ip) w")
  then have q1: "result_q w1 = result_q w"
    using ext_call_result_q [of env "BlisInitSetup_run ip" w] by simp
  obtain x2 w2 where c2: "ext_call env Ensure_nsx_alive w1 = (x2, w2)"
    by (cases "ext_call env Ensure_nsx_alive w1")
  then have q2: "result_q w2 = result_q w1"
    using ext_call_result_q [of env Ensure_nsx_alive w1] by simp
  obtain x3 w3 where c3: "restart_vm_call env w2 = (x3, w3)"
    by (cases "restart_vm_call env w2")
  then have q3: "result_q w3 = result_q w2"
    using pool_calls_result_q(6) [of env w2] by simp
  obtain x4 w4 where c4: "wait_for_vm_ready_call env 300 w3 = (x4, w4)"
    by (cases "wait_for_vm_ready_call env 300 w3")
  then have q4: "result_q w4 = result_q w3"
    using pool_calls_result_q(3) [of env 300 w3] by simp
  show ?case
    using c1 c2 c3 c4 q1 q2 q3 q4 Suc.IH
    by (auto split: sum.splits exn.splits)
qed

lemma game_loop_result_q: "result_q (snd (game_loop env k a ip w)) = result_q w"
proof (induction k arbitrary: a ip w)
  case 0
  then show ?case by simp
next
  case (Suc k)
  obtain x1 w1 where c1: "game_tutorial_run env ip w = (x1, w1)"
    by (cases "game_tutorial_run env ip w")
  then have q1: "result_q w1 = result_q w"
    using ext_call_result_q [of env "GameTutorial_run ip (self_vm w)" w]
    by (auto simp: game_tutorial_run_def split: if_splits)
  obtain x3 w3 where c3: "restart_vm_call env w1 = (x3, w3)"
    by (cases "restart_vm_call env w1")
  then have q3: "result_q w3 = result_q w1"
    using pool_calls_result_q(6) [of env w1] by simp
  obtain x4 w4 where c4: "wait_for_vm_ready_call env 300 w3 = (x4, w4)"
    by (cases "wait_for_vm_ready_call env 300 w3")
  then have q4: "result_q w4 = result_q w3"
    using pool_calls_result_q(3) [of env 300 w3] by simp
  show ?case
    using c1 c3 c4 q1 q3 q4 Suc.IH
    by (auto split: sum.splits)
qed

lemma then_do_Inr:
  assumes "then_do m f w = (Inr r, w')"
  obtains v w1 where "m w = (Inr v, w1)" "f v w1 = (Inr r, w')"
  using assms by (auto simp: then_do_def split: prod.splits sum.splits)

lemma prepare_vm_body_two_results:
  assumes "prepare_vm_body env wk w = (Inr r, w')"
  shows "result_q w' = result_q w
     @ [\<lparr>status = ''ok'', vm_name = name_ready wk, message = None\<rparr>,
        \<lparr>status = ''ok'', vm_name = name_ready wk, message = None\<rparr>]"
proof -
  note rs = retry_sync_result_q
  from assms obtain vm w1 where
    s1: "retry_sync (ext_call env (Clone_vm (source_vm wk) (name_init wk) (folder_2_vm wk))) (retries wk) w = (Inr vm, w1)"
    and r1: "then_do (set_self_vm vm) (\<lambda>u1.
     then_do (retry_sync (power_on_vm_call env) (retries wk)) (\<lambda>u2.
     then_do (retry_sync (wait_for_vm_ready_call env (ip_timeout wk)) (retries wk)) (\<lambda>ip.
     then_do (bliss_init env ip) (\<lambda>ip2.
     then_do (game_init env ip2) (\<lambda>u3.
     then_do (mark_ready_call env) (\<lambda>u4.
     then_do (power_off_vm_call env) (\<lambda>u5.
     then_do (result_q_put \<lparr>status = ''ok'', vm_name = name_ready wk, message = None\<rparr>) (\<lambda>u6.
     then_do (retry_sync (power_off_vm_call env) (retries wk)) (\<lambda>u7.
     then_do (retry_sync (mark_ready_call env) (retries wk)) (\<lambda>u8.
     result_q_put \<lparr>status = ''ok'', vm_name = name_ready wk, message = None\<rparr>)))))))))) w1 = (Inr r, w')"
    unfolding prepare_vm_body_def by (rule then_do_Inr)
  have q1: "result_q w1 = result_q w"
    using s1 rs [of "ext_call env (Clone_vm (source_vm wk) (name_init wk) (folder_2_vm wk))" "retries wk" w]
    by (simp add: ext_call_result_q)
  from r1 obtain u1 w2 where s2: "set_self_vm vm w1 = (Inr u1, w2)" and r2: "then_do (retry_sync (power_on_vm_call env) (retries wk)) (\<lambda>u2.
     then_do (retry_sync (wait_for_vm_ready_call env (ip_timeout wk)) (retries wk)) (\<lambda>ip.
     then_do (bliss_init env ip) (\<lambda>ip2.
     then_do (game_init env ip2) (\<lambda>u3.
     then_do (mark_ready_call env) (\<lambda>u4.
     then_do (power_off_vm_call env) (\<lambda>u5.
     then_do (result_q_put \<lparr>status = ''ok'', vm_name = name_ready wk, message = None\<rparr>) (\<lambda>u6.
     then_do (retry_sync (power_off_vm_call env) (retries wk)) (\<lambda>u7.
     then_do (retry_sync (mark_ready_call env) (retries wk)) (\<lambda>u8.
     result_q_put \<lparr>status = ''ok'', vm_name = name_ready wk, message = None\<rparr>))))))))) w2 = (Inr r, w')"
    by (rule then_do_Inr)
  have q2: "result_q w2 = result_q w" using s2 q1 by (auto simp: set_self_vm_def)
  from r2 obtain u2 w3 where s3: "retry_sync (power_on_vm_call env) (retries wk) w2 = (Inr u2, w3)" and r3: "
     then_do (retry_sync (wait_for_vm_ready_call env (ip_timeout wk)) (retries wk)) (\<lambda>ip.
     then_do (bliss_init env ip) (\<lambda>ip2.
     then_do (game_init env ip2) (\<lambda>u3.
     then_do (mark_ready_call env) (\<lambda>u4.
     then_do (power_off_vm_call env) (\<lambda>u5.
     then_do (result_q_put \<lparr>status = ''ok'', vm_name = name_ready wk, message = None\<rparr>) (\<lambda>u6.
     then_do (retry_sync (power_off_vm_call env) (retries wk)) (\<lambda>u7.
     then_do (retry_sync (mark_ready_call env) (retries wk)) (\<lambda>u8.
     result_q_put \<lparr>status = ''ok'', vm_name = name_ready wk, message = None\<rparr>)))))))) w3 = (Inr r, w')"
    by (rule then_do_Inr)
  have q3: "result_q w3 = result_q w"
    using s3 q2 rs [of "power_on_vm_call env" "retries wk" w2] by (simp add: pool_calls_result_q)
  from r3 obtain ip w4 where s4: "retry_sync (wait_for_vm_ready_call env (ip_timeout wk)) (retries wk) w3 = (Inr ip, w4)" and r4: "
     then_do (bliss_init env ip) (\<lambda>ip2.
     then_do (game_init env ip2) (\<lambda>u3.
     then_do (mark_ready_call env) (\<lambda>u4.
     then_do (power_off_vm_call env) (\<lambda>u5.
     then_do (result_q_put \<lparr>status = ''ok'', vm_name = name_ready wk, message = None\<rparr>) (\<lambda>u6.
     then_do (retry_sync (power_off_vm_call env) (retries wk)) (\<lambda>u7.
     then_do (retry_sync (mark_ready_call env) (retries wk)) (\<lambda>u8.
     result_q_put \<lparr>status = ''ok'', vm_name = name_ready wk, message = None\<rparr>))))))) w4 = (Inr r, w')"
    by (rule then_do_Inr)
  have q4: "result_q w4 = result_q w"
    using s4 q3 rs [of "wait_for_vm_ready_call env (ip_timeout wk)" "retries wk" w3]
    by (simp add: pool_calls_result_q)
  from r4 obtain ip2 w5 where s5: "bliss_init env ip w4 = (Inr ip2, w5)" and r5: "
     then_do (game_init env ip2) (\<lambda>u3.
     then_do (mark_ready_call env) (\<lambda>u4.
     then_do (power_off_vm_call env) (\<lambda>u5.
     then_do (result_q_put \<lparr>status = ''ok'', vm_name = name_ready wk, message = None\<rparr>) (\<lambda>u6.
     then_do (retry_sync (power_off_vm_call env) (retries wk)) (\<lambda>u7.
     then_do (retry_sync (mark_ready_call env) (retries wk)) (\<lambda>u8.
     result_q_put \<lparr>status = ''ok'', vm_name = name_ready wk, message = None\<rparr>)))))) w5 = (Inr r, w')"
    by (rule then_do_Inr)
  have q5: "result_q w5 = result_q w"
    using s5 q4 bliss_loop_result_q [of env 3 1 ip w4] by (simp add: bliss_init_def)
  from r5 obtain u3 w6 where s6: "game_init env ip2 w5 = (Inr u3, w6)" and r6: "
     then_do (mark_ready_call env) (\<lambda>u4.
     then_do (power_off_vm_call env) (\<lambda>u5.
     then_do (result_q_put \<lparr>status = ''ok'', vm_name = name_ready wk, message = None\<rparr>) (\<lambda>u6.
     then_do (retry_sync (power_off_vm_call env) (retries wk)) (\<lambda>u7.
     then_do (retry_sync (mark_ready_call env) (retries wk)) (\<lambda>u8.
     result_q_put \<lparr>status = ''ok'', vm_name = name_ready wk, message = None\<rparr>))))) w6 = (Inr r, w')"
    by (rule then_do_Inr)
  have q6: "result_q w6 = result_q w"
    using s6 q5 game_loop_result_q [of env 3 1 ip2 w5] by (simp add: game_init_def)
  from r6 obtain u4 w7 where s7: "mark_ready_call env w6 = (Inr u4, w7)" and r7: "
     then_do (power_off_vm_call env) (\<lambda>u5.
     then_do (result_q_put \<lparr>status = ''ok'', vm_name = name_ready wk, message = None\<rparr>) (\<lambda>u6.
     then_do (retry_sync (power_off_vm_call env) (retries wk)) (\<lambda>u7.
     then_do (retry_sync (mark_ready_call env) (retries wk)) (\<lambda>u8.
     result_q_put \<lparr>status = ''ok'', vm_name = name_ready wk, message = None\<rparr>)))) w7 = (Inr r, w')"
    by (rule then_do_Inr)
  have q7: "result_q w7 = result_q w"
    using s7 q6 pool_calls_result_q(4) [of env w6] by simp
  from r7 obtain u5 w8 where s8: "power_off_vm_call env w7 = (Inr u5, w8)" and r8: "
     then_do (result_q_put \<lparr>status = ''ok'', vm_name = name_ready wk, message = None\<rparr>) (\<lambda>u6.
     then_do (retry_sync (power_off_vm_call env) (retries wk)) (\<lambda>u7.
     then_do (retry_sync (mark_ready_call env) (retries wk)) (\<lambda>u8.
     result_q_put \<lparr>status = ''ok'', vm_name = name_ready wk, message = None\<rparr>))) w8 = (Inr r, w')"
    by (rule then_do_Inr)
  have q8: "result_q w8 = result_q w"
    using s8 q7 pool_calls_result_q(2) [of env w7] by simp
  from r8 obtain u6 w9 where s9: "result_q_put \<lparr>status = ''ok'', vm_name = name_ready wk, message = None\<rparr> w8 = (Inr u6, w9)" and r9: "
     then_do (retry_sync (power_off_vm_call env) (retries wk)) (\<lambda>u7.
     then_do (retry_sync (mark_ready_call env) (retries wk)) (\<lambda>u8.
     result_q_put \<lparr>status = ''ok'', vm_name = name_ready wk, message = None\<rparr>)) w9 = (Inr r, w')"
    by (rule then_do_Inr)
  have q9: "result_q w9 = result_q w @ [\<lparr>status = ''ok'', vm_name = name_ready wk, message = None\<rparr>]"
    using s9 q8 by (auto simp: result_q_put_def)
  from r9 obtain u7 w10 where s10: "retry_sync (power_off_vm_call env) (retries wk) w9 = (Inr u7, w10)" and r10: "
     then_do (retry_sync (mark_ready_call env) (retries wk)) (\<lambda>u8.
     result_q_put \<lparr>status = ''ok'', vm_name = name_ready wk, message = None\<rparr>) w10 = (Inr r, w')"
    by (rule then_do_Inr)
  have q10: "result_q w10 = result_q w9"
    using s10 rs [of "power_off_vm_call env" "retries wk" w9] by (simp add: pool_calls_result_q)
  from r10 obtain u8 w11 where s11: "retry_sync (mark_ready_call env) (retries wk) w10 = (Inr u8, w11)" and r11: "
     result_q_put \<lparr>status = ''ok'', vm_name = name_ready wk, message = None\<rparr> w11 = (Inr r, w')"
    by (rule then_do_Inr)
  have q11: "result_q w11 = result_q w10"
    using s11 rs [of "mark_ready_call env" "retries wk" w10] by (simp add: pool_calls_result_q)
  show ?thesis
    using r11 q11 q10 q9 by (auto simp: result_q_put_def)
qed

lemma prepare_vm_two_results:
  assumes "prepare_vm env wk w = (Inr r, w')"
  shows "result_q w' = result_q w
     @ [\<lparr>status = ''ok'', vm_name = name_ready wk, message = None\<rparr>,
        \<lparr>status = ''ok'', vm_name = name_ready wk, message = None\<rparr>]"
proof -
  obtain x1 w1 where c: "ext_call env Pool_connect w = (x1, w1)"
    by (cases "ext_call env Pool_connect w")
  then have q1: "result_q w1 = result_q w"
    using ext_call_result_q [of env Pool_connect w] by simp
  obtain x2 w2 where b: "prepare_vm_body env wk w1 = (x2, w2)"
    by (cases "prepare_vm_body env wk w1")
  obtain x3 w3 where d: "ext_call env Pool_disconnect w2 = (x3, w3)"
    by (cases "ext_call env Pool_disconnect w2")
  then have q3: "result_q w3 = result_q w2"
    using ext_call_result_q [of env Pool_disconnect w2] by simp
  from assms c b d have "x2 = Inr r" "w' = w3"
    by (auto simp: prepare_vm_def with_pool_def split: sum.splits)
  with b prepare_vm_body_two_results [of env wk w1 r w2] q1 q3 show ?thesis
    by simp
qed

text \<open>
  C1, evaluated on the success path. With the default settings, for every task: when
  every call returns, \<open>prepare_vm\<close> returns normally and the run leaves two \<open>ok\<close>
  results in the queue, not one. The first is posted after the unretried
  \<open>mark_ready\<close>/\<open>power_off_vm\<close> pair, the second after the retried pair.
\<close>

theorem clone_worker_posts_twice:
  "fst (prepare_vm all_return (CloneWorker_init example_settings task) world_init) = Inr NoneV
   \<and> result_q (CloneWorker_run all_return example_settings task) =
       [\<lparr>status = ''ok'', vm_name = ''[Dev] VM2login_'' @ take 8 (uuid_hex (job_id task)),
          message = None\<rparr>,
        \<lparr>status = ''ok'', vm_name = ''[Dev] VM2login_'' @ take 8 (uuid_hex (job_id task)),
          message = None\<rparr>]
   \<and> length (result_q (CloneWorker_run all_return example_settings task)) = 2"
  by (simp add: CloneWorker_run_def Let_def all_return_prepare_vm example_worker)

text \<open>
  C3, evaluated on the success path. With the default settings, for every task: when
  every call returns, the pool calls of the run are clone_vm, power_on_vm,
  wait_for_vm_ready, then (after the two guest phases) mark_ready, power_off_vm,
  power_off_vm, mark_ready. The first \<open>mark_ready\<close> (call 6) comes before the first
  \<open>power_off_vm\<close> (call 7).
\<close>

theorem clone_worker_mark_ready_first:
  "calls (CloneWorker_run all_return example_settings task) =
     [Pool_connect,
      Clone_vm ''[Dev] Golden'' (''[Dev] VMInit_'' @ take 8 (uuid_hex (job_id task)))
        ''DC1/ZeonVM/Dev/LoginVMs'',
      Power_on_vm (VmV ''vm-101''),
      Wait_for_vm_ready (VmV ''vm-101'') 10,
      BlisInitSetup_run (StrV ''10.0.0.1''),
      GameTutorial_run (StrV ''10.0.0.1'') (VmV ''vm-101''),
      Mark_ready (VmV ''vm-101''),
      Power_off_vm (VmV ''vm-101''),
      Power_off_vm (VmV ''vm-101''),
      Mark_ready (VmV ''vm-101''),
      Pool_disconnect]
   \<and> first_pos is_mark_ready (calls (CloneWorker_run all_return example_settings task))
       = Some 6
   \<and> first_pos is_power_off_vm (calls (CloneWorker_run all_return example_settings task))
       = Some 7"
  by (simp add: CloneWorker_run_def Let_def all_return_prepare_vm example_worker)

text \<open>
  C5, evaluated on three install timeouts. \<open>_bliss_init\<close> makes its three attempts
  without restarting the VM, then falls off the end of its loop and returns None instead
  of raising. The worker goes on to the tutorial with \<open>ip = None\<close>, never calls
  \<open>mark_fault\<close>, and posts \<open>ok\<close> results.
\<close>

theorem bliss_init_timeouts_return:
  "bliss_init (scripted [Raises TimeoutError, Raises TimeoutError, Raises TimeoutError])
       (StrV ''10.0.0.1'') world_init =
     (Inr NoneV,
      \<lparr>pos = 3,
       calls = [BlisInitSetup_run (StrV ''10.0.0.1''), BlisInitSetup_run (StrV ''10.0.0.1''),
                BlisInitSetup_run (StrV ''10.0.0.1'')],
       result_q = [], self_vm = NoneV\<rparr>)
   \<and> map status (result_q (CloneWorker_run install_timeouts example_settings task))
       = [''ok'', ''ok'']
   \<and> list_all (\<lambda>c. c \<noteq> Mark_fault (VmV ''vm-101''))
       (calls (CloneWorker_run install_timeouts example_settings task))"
proof -
  have "bliss_init (scripted [Raises TimeoutError, Raises TimeoutError, Raises TimeoutError])
       (StrV ''10.0.0.1'') world_init =
     (Inr NoneV,
      \<lparr>pos = 3,
       calls = [BlisInitSetup_run (StrV ''10.0.0.1''), BlisInitSetup_run (StrV ''10.0.0.1''),
                BlisInitSetup_run (StrV ''10.0.0.1'')],
       result_q = [], self_vm = NoneV\<rparr>)"
    by (simp add: worker_defs ext_call_eval three_Suc)
  then show ?thesis
    by (simp add: CloneWorker_run_def Let_def install_timeouts_prepare_vm example_worker)
qed

section \<open>Properties of list_init_vms\<close>

lemma list_init_vms_utc:
  assumes "\<And>vm d. vm \<in> set vm_list \<Longrightarrow> created vm = Some d
             \<Longrightarrow> tzinfo d = None \<or> tzinfo d = Some 0"
  shows "list_init_vms p now vm_list m =
     (if m \<le> 0 then []
      else map name
        (filter
           (\<lambda>vm. is_vm_in_env_folder p vm
              \<and> startswith (name vm) (''['' @ p @ ''] VMInit_'')
              \<and> (case created vm of None \<Rightarrow> False
                  | Some d \<Rightarrow> timedelta_minutes m \<le> utc_age now d))
           vm_list))"
proof -
  have "naive_le (replace_tzinfo_None d) (datetime_minus (utcnow now) (timedelta_minutes m))
      = (timedelta_minutes m \<le> utc_age now d)"
    if "vm \<in> set vm_list" "created vm = Some d" for vm d
    using assms [OF that]
    by (auto simp: naive_le_def replace_tzinfo_None_def datetime_minus_def utcnow_def
        utc_age_def utc_instant_def)
  then have "filter
       (\<lambda>vm. startswith (name vm) (''['' @ p @ ''] VMInit_'')
          \<and> (case created vm of None \<Rightarrow> False
              | Some c \<Rightarrow> naive_le (replace_tzinfo_None c)
                  (datetime_minus (utcnow now) (timedelta_minutes m))))
       (env_vms p vm_list)
     = filter
       (\<lambda>vm. is_vm_in_env_folder p vm
          \<and> startswith (name vm) (''['' @ p @ ''] VMInit_'')
          \<and> (case created vm of None \<Rightarrow> False
              | Some d \<Rightarrow> timedelta_minutes m \<le> utc_age now d))
       vm_list"
    unfolding env_vms_def filter_filter
    by (intro filter_cong refl) (auto split: option.splits)
  then show ?thesis
    by (simp add: list_init_vms_def Let_def)
qed

text \<open>
  C6, evaluated on an init VM of the environment folder whose \<open>createDate\<close> carries the
  offset +03:00. At 10:30 UTC the VM, created at 09:00 UTC, is 90 minutes old, and
  \<open>list_init_vms(60)\<close> does not return it: \<open>replace(tzinfo=None)\<close> drops the offset, so
  the reading 12:00 is compared with the cutoff 09:30.
\<close>

theorem list_init_vms_drops_offset:
  "startswith (name stuck_vm) ''[Dev] VMInit_''
   \<and> is_vm_in_env_folder ''Dev'' stuck_vm
   \<and> created stuck_vm = Some \<lparr>wall = hours 12, tzinfo = Some (hours 3)\<rparr>
   \<and> utc_age half_past_ten \<lparr>wall = hours 12, tzinfo = Some (hours 3)\<rparr> = timedelta_minutes 90
   \<and> list_init_vms ''Dev'' half_past_ten [stuck_vm] 60 = []"
  by (simp add: stuck_vm_def half_past_ten_def hours_def startswith_def is_vm_in_env_folder_def
      created_def utc_age_def utc_instant_def timedelta_minutes_def list_init_vms_def env_vms_def
      naive_le_def replace_tzinfo_None_def datetime_minus_def utcnow_def Let_def)

section \<open>Properties of parse_arp_table\<close>

lemma arp_step_eq:
  "arp_step m line =
     (if arp_line_ok line then m(fst (arp_entry line) \<mapsto> snd (arp_entry line)) else m)"
  by (simp add: arp_step_def arp_line_ok_def arp_entry_def Let_def)

lemma foldl_arp_step:
  "foldl arp_step m ls = m ++ map_of (rev (map arp_entry (filter arp_line_ok ls)))"
proof (induction ls arbitrary: m)
  case Nil
  then show ?case by simp
next
  case (Cons l ls)
  have unfold: "foldl arp_step m (l # ls) = foldl arp_step (arp_step m l) ls"
    by simp
  show ?case
  proof (cases "arp_line_ok l")
    case True
    obtain k v where kv: "arp_entry l = (k, v)"
      by (cases "arp_entry l")
    have step: "arp_step m l = m(k \<mapsto> v)"
      using True kv by (simp add: arp_step_eq)
    have "map_of (rev (map arp_entry (filter arp_line_ok (l # ls))))
        = [k \<mapsto> v] ++ map_of (rev (map arp_entry (filter arp_line_ok ls)))"
      using True kv by simp
    moreover have "m ++ ([k \<mapsto> v] ++ M) = m(k \<mapsto> v) ++ M" for M :: "string \<rightharpoonup> string"
      by (rule ext) (simp add: map_add_def split: option.splits)
    ultimately show ?thesis
      unfolding unfold step Cons.IH by simp
  next
    case False
    then have step: "arp_step m l = m"
      by (simp add: arp_step_eq)
    show ?thesis
      unfolding unfold step Cons.IH using False by simp
  qed
qed

lemma canonical_mac_match: "canonical_mac s \<Longrightarrow> match_mac s"
proof -
  assume c: "canonical_mac s"
  then have len: "length s = 17"
    and all: "\<forall>i<17. if i mod 3 = 2 then s ! i = CHR '':'' else is_hex (s ! i)"
    by (auto simp: canonical_mac_def list_all_iff)
  have "mac_class (s ! i)" if "i < 17" for i
    using all that by (auto simp: mac_class_def split: if_splits)
  then have "list_all mac_class s"
    using len by (simp add: list_all_length)
  then show ?thesis using len by (simp add: match_mac_def)
qed

lemma dotted_quad_match: "dotted_quad s \<Longrightarrow> match_ipv4 s"
  by (simp add: dotted_quad_def match_ipv4_def)

lemma split_example:
  "split ''7 10.0.0.1 fe80::250:56ff:feaa:6816 x''
     = [''7'', ''10.0.0.1'', ''fe80::250:56ff:feaa:6816'', ''x'']"
  "split ''7 10.0.0.1 00:50:56:AA:68:16 x'' = [''7'', ''10.0.0.1'', ''00:50:56:AA:68:16'', ''x'']"
  by (simp_all add: split_def isspace_def)

lemma splitlines_example:
  "splitlines ''7 10.0.0.1 fe80::250:56ff:feaa:6816 x''
     = [''7 10.0.0.1 fe80::250:56ff:feaa:6816 x'']"
  "splitlines ''7 10.0.0.1 00:50:56:AA:68:16 x'' = [''7 10.0.0.1 00:50:56:AA:68:16 x'']"
  by (simp_all add: splitlines_def is_linebreak_def)

lemmas match_defs =
  match_mac_def match_ipv4_def ipv4_rest_def eat_group_dot_def eat_digits_def eat_dot_def
  isdigit_def mac_class_def is_hex_def lower_def lower_char_def

text \<open>
  What the loop computes: the map built from the accepted lines in order, a later line
  replacing an earlier one with the same key. Every line with at least four fields, a
  dotted quad as second field and a canonical MAC address as third field is accepted.
\<close>

lemma parse_arp_table_entries:
  "parse_arp_table raw = map_of (rev (map arp_entry (filter arp_line_ok (splitlines raw))))
   \<and> dom (parse_arp_table raw)
       = (\<lambda>line. lower (split line ! 2)) ` {line \<in> set (splitlines raw). arp_line_ok line}
   \<and> (4 \<le> length (split line) \<and> dotted_quad (split line ! 1) \<and> canonical_mac (split line ! 2)
        \<longrightarrow> arp_line_ok line)"
proof -
  have p: "parse_arp_table raw = map_of (rev (map arp_entry (filter arp_line_ok (splitlines raw))))"
    by (simp add: parse_arp_table_def foldl_arp_step)
  have "dom (parse_arp_table raw) = fst ` set (map arp_entry (filter arp_line_ok (splitlines raw)))"
    unfolding p by (simp add: dom_map_of_conv_image_fst)
  also have "\<dots> = (\<lambda>line. lower (split line ! 2)) ` {line \<in> set (splitlines raw). arp_line_ok line}"
    by (auto simp: arp_entry_def Let_def image_iff)
  finally have d: "dom (parse_arp_table raw)
       = (\<lambda>line. lower (split line ! 2)) ` {line \<in> set (splitlines raw). arp_line_ok line}" .
  show ?thesis
    using p d by (simp add: arp_line_ok_def Let_def canonical_mac_match dotted_quad_match)
qed

lemma parse_arp_table_canonical_line:
  "4 \<le> length (split ''7 10.0.0.1 00:50:56:AA:68:16 x'')
   \<and> dotted_quad (split ''7 10.0.0.1 00:50:56:AA:68:16 x'' ! 1)
   \<and> canonical_mac (split ''7 10.0.0.1 00:50:56:AA:68:16 x'' ! 2)
   \<and> arp_line_ok ''7 10.0.0.1 00:50:56:AA:68:16 x''
   \<and> parse_arp_table ''7 10.0.0.1 00:50:56:AA:68:16 x'' ''00:50:56:aa:68:16'' = Some ''10.0.0.1''"
proof -
  let ?line = "''7 10.0.0.1 00:50:56:AA:68:16 x''"
  have mac: "canonical_mac ''00:50:56:AA:68:16''"
    by code_simp
  have h: "4 \<le> length (split ?line) \<and> dotted_quad (split ?line ! 1)
      \<and> canonical_mac (split ?line ! 2)"
    using mac by (simp add: split_example dotted_quad_def match_defs)
  from parse_arp_table_entries [of ?line ?line] h
  have ok: "arp_line_ok ?line"
    and tab: "parse_arp_table ?line = map_of (rev (map arp_entry (filter arp_line_ok (splitlines ?line))))"
    by blast+
  have low: "lower ''00:50:56:AA:68:16'' = ''00:50:56:aa:68:16''"
    by code_simp
  have "parse_arp_table ?line ''00:50:56:aa:68:16'' = Some ''10.0.0.1''"
    unfolding tab using ok
    by (simp add: splitlines_example arp_entry_def split_example Let_def low)
  with h ok show ?thesis
    by blast
qed

text \<open>
  C8, evaluated on a line whose third field is not a MAC address. The line
  \<open>7 10.0.0.1 fe80::250:56ff:feaa:6816 x\<close> has four fields and a dotted quad as second
  field; its third field is an IPv6 address, not a canonical 17-character
  colon-separated MAC address. \<open>parse_arp_table\<close> stores an entry for it all the same:
  \<open>re.match\<close> of \<open>[0-9A-Fa-f:]{17}\<close> only asks that the first 17 characters are
  hexadecimal digits or colons, and is not anchored at the end.
\<close>

theorem parse_arp_table_accepts_non_mac:
  "\<not> canonical_mac ''fe80::250:56ff:feaa:6816''
   \<and> parse_arp_table ''7 10.0.0.1 fe80::250:56ff:feaa:6816 x'' ''fe80::250:56ff:feaa:6816''
       = Some ''10.0.0.1''"
  by (simp add: canonical_mac_def parse_arp_table_def splitlines_example arp_step_def
      split_example Let_def match_defs)

section \<open>Properties of the power operations\<close>

lemma reconnect_if_needed_state:
  "reconnect_if_needed vc = (Inr r, vc1) \<Longrightarrow> vc1 = vc\<lparr>session_probe := Probe_ok\<rparr>"
  by (cases "session_probe vc") (auto simp: reconnect_if_needed_def split: if_splits)

lemma ensure_vm_connection_handle:
  assumes "entry_handle vc vm = Inr vm'"
  shows "ensure_vm_connection fn vc vm = fn (vc\<lparr>session_probe := Probe_ok\<rparr>) vm'"
proof (cases "reconnect_if_needed vc")
  case (Pair r vc1)
  show ?thesis
  proof (cases r)
    case (Inl e)
    with Pair assms show ?thesis
      by (simp add: entry_handle_def ensure_vm_connection_def)
  next
    case (Inr reconnected)
    with Pair have vc1: "vc1 = vc\<lparr>session_probe := Probe_ok\<rparr>"
      using reconnect_if_needed_state by blast
    show ?thesis
      using assms Pair Inr vc1
      by (auto simp: entry_handle_def ensure_vm_connection_def
          split: option.splits sum.splits if_splits)
  qed
qed

lemma power_state_of_probe:
  "power_state_of (vc\<lparr>session_probe := p\<rparr>) vm = power_state_of vc vm"
  by (simp add: power_state_of_def vm_of_def)

lemma entry_handle_live: "session_probe vc = Probe_ok \<Longrightarrow> entry_handle vc vm = Inr vm"
  by (simp add: entry_handle_def ensure_vm_connection_def reconnect_if_needed_def)

lemmas example_vcenter_defs =
  example_vcenter_def golden_vm_def init_vm_def ready_vm_def expired_vcenter_def stale_vcenter_def

text \<open>
  C9, as the claim states it, fails: the init VM is powered on, the session has expired
  and cannot be opened again, and \<open>power_on_vm\<close> raises the connection error of the
  decorator's reconnect.
\<close>

theorem power_on_vm_counterexample:
  "power_state_of expired_vcenter 101 = Some poweredOn
   \<and> fst (power_on_vm expired_vcenter 101) = Inl ConnectError"
  by (simp add: example_vcenter_defs power_state_of_def vm_of_def power_on_vm_def
      ensure_vm_connection_def reconnect_if_needed_def)

text \<open>
  C9, amended. \<open>power_on_vm\<close>, \<open>power_off_vm\<close> and \<open>suspend_vm\<close> are idempotent with
  respect to their target power state once the connection check at entry has passed: if
  the decorator hands the body a handle (the given one when the session is live; after a
  successful reconnect, the one found again under the name of the VM) that is already in
  the target state (poweredOn, poweredOff, suspended respectively), the call starts no
  power task, raises no error, and returns leaving the inventory, and so the power
  state, unchanged: only the session is marked live. With a live session the handle is
  the given one and nothing changes at all.
\<close>

theorem power_ops_idempotent:
  "(entry_handle vc vm = Inr vm' \<and> power_state_of vc vm' = Some poweredOn
      \<longrightarrow> power_on_vm vc vm = (Inr (), vc\<lparr>session_probe := Probe_ok\<rparr>))
   \<and> (entry_handle vc vm = Inr vm' \<and> power_state_of vc vm' = Some poweredOff
      \<longrightarrow> power_off_vm vc vm = (Inr (), vc\<lparr>session_probe := Probe_ok\<rparr>))
   \<and> (entry_handle vc vm = Inr vm' \<and> power_state_of vc vm' = Some suspended
      \<longrightarrow> suspend_vm vc vm = (Inr (), vc\<lparr>session_probe := Probe_ok\<rparr>))
   \<and> (session_probe vc = Probe_ok
      \<longrightarrow> entry_handle vc vm = Inr vm \<and> vc\<lparr>session_probe := Probe_ok\<rparr> = vc)"
proof -
  have on: "power_on_vm vc vm = (Inr (), vc\<lparr>session_probe := Probe_ok\<rparr>)"
    if "entry_handle vc vm = Inr vm'" "power_state_of vc vm' = Some poweredOn"
    using that
    by (auto simp: power_on_vm_def ensure_vm_connection_handle power_on_vm_body_def
        power_state_of_def vm_of_def)
  have off: "power_off_vm vc vm = (Inr (), vc\<lparr>session_probe := Probe_ok\<rparr>)"
    if "entry_handle vc vm = Inr vm'" "power_state_of vc vm' = Some poweredOff"
    using that
    by (auto simp: power_off_vm_def ensure_vm_connection_handle power_off_vm_body_def
        power_state_of_def vm_of_def)
  have sus: "suspend_vm vc vm = (Inr (), vc\<lparr>session_probe := Probe_ok\<rparr>)"
    if "entry_handle vc vm = Inr vm'" "power_state_of vc vm' = Some suspended"
    using that
    by (auto simp: suspend_vm_def ensure_vm_connection_handle suspend_vm_body_def
        power_state_of_def vm_of_def)
  show ?thesis
    using on off sus by (auto simp: entry_handle_live)
qed

theorem power_ops_idempotent_witness:
  "entry_handle example_vcenter 101 = Inr 101
   \<and> power_state_of example_vcenter 101 = Some poweredOn
   \<and> power_on_vm example_vcenter 101 = (Inr (), example_vcenter)
   \<and> entry_handle example_vcenter 100 = Inr 100
   \<and> power_state_of example_vcenter 100 = Some poweredOff
   \<and> power_off_vm example_vcenter 100 = (Inr (), example_vcenter)
   \<and> entry_handle example_vcenter 102 = Inr 102
   \<and> power_state_of example_vcenter 102 = Some suspended
   \<and> suspend_vm example_vcenter 102 = (Inr (), example_vcenter)
   \<and> entry_handle stale_vcenter 101 = Inr 101
   \<and> power_state_of stale_vcenter 101 = Some poweredOn
   \<and> power_on_vm stale_vcenter 101 = (Inr (), example_vcenter)"
proof -
  have live: "session_probe example_vcenter = Probe_ok"
    by (simp add: example_vcenter_def)
  have states: "power_state_of example_vcenter 101 = Some poweredOn"
    "power_state_of example_vcenter 100 = Some poweredOff"
    "power_state_of example_vcenter 102 = Some suspended"
    "power_state_of stale_vcenter 101 = Some poweredOn"
    by (simp_all add: example_vcenter_defs power_state_of_def vm_of_def)
  have stale: "entry_handle stale_vcenter 101 = Inr 101"
    "stale_vcenter\<lparr>session_probe := Probe_ok\<rparr> = example_vcenter"
    by (simp_all add: example_vcenter_defs entry_handle_def ensure_vm_connection_def
        reconnect_if_needed_def vm_of_def get_vm_by_name_def)
  show ?thesis
    using power_ops_idempotent [of example_vcenter 101 101]
      power_ops_idempotent [of example_vcenter 100 100]
      power_ops_idempotent [of example_vcenter 102 102]
      power_ops_idempotent [of stale_vcenter 101 101]
      live states stale
    by simp
qed

section \<open>Properties of clone_vm\<close>

lemma create_folder_None:
  assumes "create_folder vc n base = (Inr None, vc1)"
  shows "vc1 = vc\<lparr>session_probe := Probe_ok, tasks := tasks vc @ [CreateFolder n base]\<rparr>"
proof (cases "session_probe vc")
  case Probe_ok
  with assms show ?thesis
    by (auto simp: create_folder_def reconnect_if_needed_def Let_def split: if_splits)
next
  case Probe_not_authenticated
  with assms show ?thesis
    by (auto simp: create_folder_def reconnect_if_needed_def Let_def split: if_splits)
next
  case Probe_fails
  with assms show ?thesis
    by (auto simp: create_folder_def reconnect_if_needed_def Let_def split: if_splits)
qed

lemma run_clone_tasks:
  "tasks (snd (run_clone vc source dest n)) = tasks vc @ [Clone (moid source) dest n]"
  by (simp add: run_clone_def Let_def get_vm_by_name_def split: option.splits)

lemma run_clone_returns:
  assumes "session_probe vc = Probe_ok" "task_ok vc"
  shows "\<exists>vm. fst (run_clone vc source dest n) = Inr vm"
proof -
  let ?new = "\<lparr>moid = next_id vc, vname = n, powerState = poweredOff, vparent = dest,
               datastore = [hd (datastore source)], resourcePool = resourcePool source\<rparr>"
  have "find (\<lambda>v. vname v = n) (inventory vc @ [?new]) \<noteq> None"
    by (auto simp: find_None_iff)
  then obtain v where "find (\<lambda>v. vname v = n) (inventory vc @ [?new]) = Some v"
    by blast
  then show ?thesis
    using assms by (simp add: run_clone_def Let_def get_vm_by_name_def)
qed

text \<open>
  C10. Let \<open>clone_vm\<close> find the source VM, with a datastore. If \<open>folder_name\<close> is a
  non-empty name without a slash that matches no existing folder, and the attempt to
  create it fails (\<open>create_folder\<close> returns None), then \<open>clone_vm\<close> does not raise on
  that account: it goes on exactly as the clone into the parent folder of the source VM
  does, the clone task is started with that folder as its destination, and when the task
  succeeds the call returns the new VM. The same holds with \<open>folder_name = None\<close>,
  without the creation attempt.
\<close>

theorem clone_vm_folder_fallback:
  assumes src: "get_vm_by_name vc source_vm_name = Inr (Some src)"
    and source: "vm_of vc src = Some source"
    and ds: "datastore source \<noteq> []"
  shows "(folder_name \<noteq> [] \<and> CHR ''/'' \<notin> set folder_name
           \<and> get_folder_by_name vc folder_name = Inr None
           \<and> create_folder vc folder_name (parent_or_self vc (vparent source)) = (Inr None, vc1)
         \<longrightarrow> clone_vm vc source_vm_name new_vm_name (Some folder_name)
               = run_clone vc1 source (vparent source) new_vm_name
             \<and> tasks (snd (clone_vm vc source_vm_name new_vm_name (Some folder_name)))
               = tasks vc @ [CreateFolder folder_name (parent_or_self vc (vparent source)),
                             Clone (moid source) (vparent source) new_vm_name]
             \<and> (task_ok vc \<longrightarrow>
                  (\<exists>vm. fst (clone_vm vc source_vm_name new_vm_name (Some folder_name)) = Inr vm)))
     \<and> clone_vm vc source_vm_name new_vm_name None
         = run_clone vc source (vparent source) new_vm_name
     \<and> tasks (snd (clone_vm vc source_vm_name new_vm_name None))
         = tasks vc @ [Clone (moid source) (vparent source) new_vm_name]
     \<and> (task_ok vc \<longrightarrow> (\<exists>vm. fst (clone_vm vc source_vm_name new_vm_name None) = Inr vm))"
proof -
  have live: "session_probe vc = Probe_ok"
    using src by (simp add: get_vm_by_name_def split: if_splits)
  have none: "clone_vm vc source_vm_name new_vm_name None
      = run_clone vc source (vparent source) new_vm_name"
    using src source ds by (simp add: clone_vm_def destination_folder_def)
  have some: "clone_vm vc source_vm_name new_vm_name (Some folder_name)
      = run_clone vc1 source (vparent source) new_vm_name"
    if "folder_name \<noteq> []" "CHR ''/'' \<notin> set folder_name"
      "get_folder_by_name vc folder_name = Inr None"
      "create_folder vc folder_name (parent_or_self vc (vparent source)) = (Inr None, vc1)"
    using src source ds that by (simp add: clone_vm_def destination_folder_def Let_def)
  have vc1: "vc1 = vc\<lparr>session_probe := Probe_ok,
        tasks := tasks vc @ [CreateFolder folder_name (parent_or_self vc (vparent source))]\<rparr>"
    if "create_folder vc folder_name (parent_or_self vc (vparent source)) = (Inr None, vc1)"
    using that by (rule create_folder_None)
  show ?thesis
    using none some vc1 live run_clone_returns [of vc source "vparent source" new_vm_name]
      run_clone_returns [of vc1 source "vparent source" new_vm_name]
    by (auto simp: run_clone_tasks)
qed

theorem clone_vm_folder_fallback_witness:
  "get_vm_by_name example_vcenter ''[Dev] Golden'' = Inr (Some 100)
   \<and> vm_of example_vcenter 100 = Some golden_vm
   \<and> datastore golden_vm \<noteq> []
   \<and> ''LoginVMs'' \<noteq> []
   \<and> CHR ''/'' \<notin> set ''LoginVMs''
   \<and> get_folder_by_name example_vcenter ''LoginVMs'' = Inr None
   \<and> create_folder example_vcenter ''LoginVMs'' (parent_or_self example_vcenter (vparent golden_vm))
       = (Inr None, example_vcenter\<lparr>tasks := [CreateFolder ''LoginVMs'' 1]\<rparr>)
   \<and> tasks (snd (clone_vm example_vcenter ''[Dev] Golden'' ''[Dev] VMInit_11111111''
               (Some ''LoginVMs'')))
       = [CreateFolder ''LoginVMs'' 1, Clone 100 10 ''[Dev] VMInit_11111111'']
   \<and> (\<exists>vm. fst (clone_vm example_vcenter ''[Dev] Golden'' ''[Dev] VMInit_11111111''
               (Some ''LoginVMs'')) = Inr vm)
   \<and> tasks (snd (clone_vm example_vcenter ''[Dev] Golden'' ''[Dev] VMInit_11111111'' None))
       = [Clone 100 10 ''[Dev] VMInit_11111111'']"
proof -
  have h1: "get_vm_by_name example_vcenter ''[Dev] Golden'' = Inr (Some 100)"
    and h2: "vm_of example_vcenter 100 = Some golden_vm"
    and h3: "datastore golden_vm \<noteq> []"
    by (simp_all add: example_vcenter_defs get_vm_by_name_def vm_of_def)
  have base: "parent_or_self example_vcenter (vparent golden_vm) = 1"
    by (simp add: example_vcenter_defs parent_or_self_def folder_of_def)
  have h4: "''LoginVMs'' \<noteq> [] \<and> CHR ''/'' \<notin> set ''LoginVMs''
      \<and> get_folder_by_name example_vcenter ''LoginVMs'' = Inr None
      \<and> create_folder example_vcenter ''LoginVMs''
           (parent_or_self example_vcenter (vparent golden_vm))
         = (Inr None, example_vcenter\<lparr>tasks := [CreateFolder ''LoginVMs'' 1]\<rparr>)"
    unfolding base
    by (simp add: example_vcenter_defs get_folder_by_name_def create_folder_def
        reconnect_if_needed_def)
  have facts: "task_ok example_vcenter" "tasks example_vcenter = []"
    "moid golden_vm = 100" "vparent golden_vm = 10"
    by (simp_all add: example_vcenter_defs)
  from clone_vm_folder_fallback [OF h1 h2 h3, of "''LoginVMs''"
      "example_vcenter\<lparr>tasks := [CreateFolder ''LoginVMs'' 1]\<rparr>" "''[Dev] VMInit_11111111''"] h4
  have a: "tasks (snd (clone_vm example_vcenter ''[Dev] Golden'' ''[Dev] VMInit_11111111''
               (Some ''LoginVMs'')))
       = tasks example_vcenter
           @ [CreateFolder ''LoginVMs'' (parent_or_self example_vcenter (vparent golden_vm)),
              Clone (moid golden_vm) (vparent golden_vm) ''[Dev] VMInit_11111111'']"
    and b: "task_ok example_vcenter \<longrightarrow>
       (\<exists>vm. fst (clone_vm example_vcenter ''[Dev] Golden'' ''[Dev] VMInit_11111111''
               (Some ''LoginVMs'')) = Inr vm)"
    and c: "tasks (snd (clone_vm example_vcenter ''[Dev] Golden'' ''[Dev] VMInit_11111111'' None))
       = tasks example_vcenter @ [Clone (moid golden_vm) (vparent golden_vm) ''[Dev] VMInit_11111111'']"
    by blast+
  show ?thesis
    using a b c h1 h2 h3 h4 base facts by simp
qed

end
